theory Spec2Isabelle
  imports Main
begin

section \<open>Strings\<close>

text \<open>
  The source is TypeScript. A JavaScript string is a sequence of UTF-16 code units; it is
  modelled as a list of code units, each a natural number. \<open>js\<close> turns a literal of
  ASCII characters into such a list.
\<close>

type_synonym jsstring = "nat list"

definition js :: "string \<Rightarrow> jsstring" where
  "js s = map of_char s"

fun startsWith :: "jsstring \<Rightarrow> jsstring \<Rightarrow> bool" where
  "startsWith s [] = True"
| "startsWith [] (p # ps) = False"
| "startsWith (c # cs) (p # ps) = (c = p \<and> startsWith cs ps)"

fun str_includes :: "jsstring \<Rightarrow> jsstring \<Rightarrow> bool" where
  "str_includes [] sub = (sub = [])"
| "str_includes (c # cs) sub = (startsWith (c # cs) sub \<or> str_includes cs sub)"

text \<open>
  The regular-expression class \<open>.\<close> (without the \<open>s\<close> flag) excludes the four line
  terminators. The class \<open>\s\<close> and \<open>String.prototype.trim\<close> use the same set: white
  space and line terminators.
\<close>

definition is_line_terminator :: "nat \<Rightarrow> bool" where
  "is_line_terminator c = (c = 10 \<or> c = 13 \<or> c = 8232 \<or> c = 8233)"

definition is_white_space :: "nat \<Rightarrow> bool" where
  "is_white_space c =
     (c = 9 \<or> c = 10 \<or> c = 11 \<or> c = 12 \<or> c = 13 \<or> c = 32 \<or> c = 160 \<or> c = 5760
      \<or> (8192 \<le> c \<and> c \<le> 8202) \<or> c = 8232 \<or> c = 8233 \<or> c = 8239 \<or> c = 8287
      \<or> c = 12288 \<or> c = 65279)"

definition trim :: "jsstring \<Rightarrow> jsstring" where
  "trim s = rev (dropWhile is_white_space (rev (dropWhile is_white_space s)))"

text \<open>
  Under the \<open>i\<close> flag (without \<open>u\<close>) two code units match when their canonical forms
  agree. Against an ASCII pattern character this is equality up to the case of the
  ASCII letters: a code unit from 128 on is never canonicalised to an ASCII one.
\<close>

definition ascii_upper :: "nat \<Rightarrow> nat" where
  "ascii_upper c = (if 97 \<le> c \<and> c \<le> 122 then c - 32 else c)"

fun startsWith_ci :: "jsstring \<Rightarrow> jsstring \<Rightarrow> bool" where
  "startsWith_ci s [] = True"
| "startsWith_ci [] (p # ps) = False"
| "startsWith_ci (c # cs) (p # ps) = (ascii_upper c = ascii_upper p \<and> startsWith_ci cs ps)"

text \<open>\<open>s.split("\n")\<close>: the segments between line feeds, at least one.\<close>

fun split_nl :: "jsstring \<Rightarrow> jsstring list" where
  "split_nl [] = [[]]"
| "split_nl (c # cs) =
     (if c = 10 then [] # split_nl cs
      else (case split_nl cs of [] \<Rightarrow> [[c]] | l # ls \<Rightarrow> (c # l) # ls))"

text \<open>\<open>s.replace(pat, rep)\<close> with string arguments replaces the first occurrence of \<open>pat\<close>;
  \<open>rep\<close> here never contains a dollar sign.\<close>

fun replace_first :: "jsstring \<Rightarrow> jsstring \<Rightarrow> jsstring \<Rightarrow> jsstring" where
  "replace_first [] pat rep = (if pat = [] then rep else [])"
| "replace_first (c # cs) pat rep =
     (if startsWith (c # cs) pat then rep @ drop (length pat) (c # cs)
      else c # replace_first cs pat rep)"

text \<open>Decimal rendering of a natural number, as a template literal prints it (below \<open>10^21\<close>).\<close>

definition digit_char :: "nat \<Rightarrow> nat" where
  "digit_char d = 48 + d"

fun show_nat :: "nat \<Rightarrow> jsstring" where
  "show_nat n = (if n < 10 then [digit_char n] else show_nat (n div 10) @ [digit_char (n mod 10)])"

declare show_nat.simps [simp del]

section \<open>JSON values and \<open>JSON.parse\<close>\<close>

text \<open>
  A number literal is kept as sign, decimal mantissa and decimal exponent: the literal
  denotes \<open>mantissa * 10 ^ exponent\<close>, which the engine rounds to a double. An object
  keeps its members in source order; a later member with the same key wins.
\<close>

datatype json =
    JNull
  | JBool bool
  | JNumber bool nat int
  | JString jsstring
  | JArray "json list"
  | JObject "(jsstring \<times> json) list"

definition json_ws :: "nat \<Rightarrow> bool" where
  "json_ws c = (c = 32 \<or> c = 9 \<or> c = 10 \<or> c = 13)"

definition skip_ws :: "jsstring \<Rightarrow> jsstring" where
  "skip_ws s = dropWhile json_ws s"

definition is_digit :: "nat \<Rightarrow> bool" where
  "is_digit c = (48 \<le> c \<and> c \<le> 57)"

definition hex_val :: "nat \<Rightarrow> nat option" where
  "hex_val c =
     (if 48 \<le> c \<and> c \<le> 57 then Some (c - 48)
      else if 97 \<le> c \<and> c \<le> 102 then Some (c - 87)
      else if 65 \<le> c \<and> c \<le> 70 then Some (c - 55)
      else None)"

definition unescape :: "nat \<Rightarrow> nat option" where
  "unescape e =
     (if e = 34 then Some 34 else if e = 92 then Some 92 else if e = 47 then Some 47
      else if e = 98 then Some 8 else if e = 102 then Some 12 else if e = 110 then Some 10
      else if e = 114 then Some 13 else if e = 116 then Some 9 else None)"

definition cons_fst :: "nat \<Rightarrow> (jsstring \<times> jsstring) option \<Rightarrow> (jsstring \<times> jsstring) option" where
  "cons_fst c r = (case r of None \<Rightarrow> None | Some (s, rest) \<Rightarrow> Some (c # s, rest))"

text \<open>The characters of a string literal after its opening quote, and what follows the closing quote.\<close>

fun parse_chars :: "jsstring \<Rightarrow> (jsstring \<times> jsstring) option" where
  "parse_chars [] = None"
| "parse_chars [c] = (if c = 34 then Some ([], []) else None)"
| "parse_chars (c # e # es) =
     (if c = 34 then Some ([], e # es)
      else if c < 32 then None
      else if c = 92 then
        (if e = 117 then
           (case es of
              h1 # h2 # h3 # h4 # rest \<Rightarrow>
                (case (hex_val h1, hex_val h2, hex_val h3, hex_val h4) of
                   (Some a, Some b, Some c', Some d) \<Rightarrow>
                     cons_fst (((a * 16 + b) * 16 + c') * 16 + d) (parse_chars rest)
                 | _ \<Rightarrow> None)
            | _ \<Rightarrow> None)
         else (case unescape e of None \<Rightarrow> None | Some u \<Rightarrow> cons_fst u (parse_chars es)))
      else cons_fst c (parse_chars (e # es)))"

definition digits_val :: "jsstring \<Rightarrow> nat" where
  "digits_val ds = foldl (\<lambda>a d. a * 10 + (d - 48)) 0 ds"

text \<open>The optional exponent part: its value and the rest, or \<open>None\<close> when \<open>e\<close> is followed by no digit.\<close>

definition parse_exponent :: "jsstring \<Rightarrow> (int \<times> jsstring) option" where
  "parse_exponent s =
     (case s of
        [] \<Rightarrow> Some (0, s)
      | c # cs \<Rightarrow>
          if c = 101 \<or> c = 69 then
            (let (neg, r) = (case cs of [] \<Rightarrow> (False, cs)
                             | g # gs \<Rightarrow> if g = 45 then (True, gs) else if g = 43 then (False, gs) else (False, cs));
                 ds = takeWhile is_digit r
             in if ds = [] then None
                else Some ((if neg then - int (digits_val ds) else int (digits_val ds)), dropWhile is_digit r))
          else Some (0, s))"

definition parse_fraction :: "jsstring \<Rightarrow> (jsstring \<times> jsstring) option" where
  "parse_fraction s =
     (case s of
        [] \<Rightarrow> Some ([], s)
      | c # cs \<Rightarrow>
          if c = 46 then
            (let ds = takeWhile is_digit cs
             in if ds = [] then None else Some (ds, dropWhile is_digit cs))
          else Some ([], s))"

definition parse_number :: "jsstring \<Rightarrow> (json \<times> jsstring) option" where
  "parse_number s =
     (let (neg, s1) = (case s of [] \<Rightarrow> (False, s) | c # cs \<Rightarrow> if c = 45 then (True, cs) else (False, s));
          (ds, s2) = (case s1 of [] \<Rightarrow> ([], s1)
                      | c # cs \<Rightarrow> if c = 48 then ([c], cs) else (takeWhile is_digit s1, dropWhile is_digit s1))
      in if ds = [] then None
         else (case parse_fraction s2 of
                 None \<Rightarrow> None
               | Some (fs, s3) \<Rightarrow>
                   (case parse_exponent s3 of
                      None \<Rightarrow> None
                    | Some (ex, s4) \<Rightarrow> Some (JNumber neg (digits_val (ds @ fs)) (ex - int (length fs)), s4))))"

text \<open>
  The recursive descent over values. The first argument bounds the depth of the
  recursion; every call consumes a character before it recurses, so the length of the
  text is enough. The text given to \<open>parse_value\<close>, \<open>parse_elements\<close> and
  \<open>parse_members\<close> has its leading white space removed.
\<close>

fun parse_value :: "nat \<Rightarrow> jsstring \<Rightarrow> (json \<times> jsstring) option"
  and parse_elements :: "nat \<Rightarrow> jsstring \<Rightarrow> (json list \<times> jsstring) option"
  and parse_members :: "nat \<Rightarrow> jsstring \<Rightarrow> ((jsstring \<times> json) list \<times> jsstring) option"
where
  "parse_value 0 s = None"
| "parse_value (Suc n) s =
     (case s of
        [] \<Rightarrow> None
      | c # cs \<Rightarrow>
          if c = 123 then
            (case skip_ws cs of
               [] \<Rightarrow> None
             | d # ds \<Rightarrow> if d = 125 then Some (JObject [], ds)
                         else (case parse_members n (d # ds) of
                                 None \<Rightarrow> None | Some (ms, r) \<Rightarrow> Some (JObject ms, r)))
          else if c = 91 then
            (case skip_ws cs of
               [] \<Rightarrow> None
             | d # ds \<Rightarrow> if d = 93 then Some (JArray [], ds)
                         else (case parse_elements n (d # ds) of
                                 None \<Rightarrow> None | Some (vs, r) \<Rightarrow> Some (JArray vs, r)))
          else if c = 34 then
            (case parse_chars cs of None \<Rightarrow> None | Some (str, r) \<Rightarrow> Some (JString str, r))
          else if startsWith s (js ''true'') then Some (JBool True, drop 4 s)
          else if startsWith s (js ''false'') then Some (JBool False, drop 5 s)
          else if startsWith s (js ''null'') then Some (JNull, drop 4 s)
          else if c = 45 \<or> is_digit c then parse_number s
          else None)"
| "parse_elements 0 s = None"
| "parse_elements (Suc n) s =
     (case parse_value n s of
        None \<Rightarrow> None
      | Some (v, r) \<Rightarrow>
          (case skip_ws r of
             [] \<Rightarrow> None
           | d # ds \<Rightarrow>
               if d = 44 then
                 (case parse_elements n (skip_ws ds) of
                    None \<Rightarrow> None | Some (vs, r') \<Rightarrow> Some (v # vs, r'))
               else if d = 93 then Some ([v], ds)
               else None))"
| "parse_members 0 s = None"
| "parse_members (Suc n) s =
     (case s of
        [] \<Rightarrow> None
      | q # qs \<Rightarrow>
          if q \<noteq> 34 then None
          else
            (case parse_chars qs of
               None \<Rightarrow> None
             | Some (key, r) \<Rightarrow>
                 (case skip_ws r of
                    [] \<Rightarrow> None
                  | col # r1 \<Rightarrow>
                      if col \<noteq> 58 then None
                      else
                        (case parse_value n (skip_ws r1) of
                           None \<Rightarrow> None
                         | Some (v, r2) \<Rightarrow>
                             (case skip_ws r2 of
                                [] \<Rightarrow> None
                              | d # ds \<Rightarrow>
                                  if d = 44 then
                                    (case parse_members n (skip_ws ds) of
                                       None \<Rightarrow> None | Some (ms, r3) \<Rightarrow> Some ((key, v) # ms, r3))
                                  else if d = 125 then Some ([(key, v)], ds)
                                  else None)))))"

text \<open>\<open>JSON.parse(text)\<close>: the value, or \<open>None\<close> for a \<open>SyntaxError\<close>.\<close>

definition JSON_parse :: "jsstring \<Rightarrow> json option" where
  "JSON_parse text =
     (case parse_value (Suc (length text)) (skip_ws text) of
        None \<Rightarrow> None
      | Some (v, rest) \<Rightarrow> if skip_ws rest = [] then Some v else None)"

section \<open>Reading parsed values\<close>

text \<open>
  A property read gives \<open>None\<close> for \<open>undefined\<close>. The names read by the handler
  (\<open>choices\<close>, \<open>delta\<close>, \<open>content\<close>, \<open>error\<close>, \<open>message\<close>, \<open>code\<close>) are properties of no
  string, number, boolean or array, so only an object can have them.
\<close>

definition lookup_member :: "(jsstring \<times> json) list \<Rightarrow> jsstring \<Rightarrow> json option" where
  "lookup_member ms key = map_of (rev ms) key"

definition get_prop :: "json \<Rightarrow> jsstring \<Rightarrow> json option" where
  "get_prop v key = (case v of JObject ms \<Rightarrow> lookup_member ms key | _ \<Rightarrow> None)"

text \<open>\<open>v[0]\<close> on a value that is neither \<open>null\<close> nor \<open>undefined\<close>.\<close>

definition index0 :: "json \<Rightarrow> json option" where
  "index0 v =
     (case v of
        JArray vs \<Rightarrow> (case vs of [] \<Rightarrow> None | x # _ \<Rightarrow> Some x)
      | JObject ms \<Rightarrow> lookup_member ms (js ''0'')
      | JString s \<Rightarrow> (case s of [] \<Rightarrow> None | c # _ \<Rightarrow> Some (JString [c]))
      | _ \<Rightarrow> None)"

definition nullish :: "json option \<Rightarrow> bool" where
  "nullish v = (v = None \<or> v = Some JNull)"

text \<open>
  A number literal is falsy when its double is zero: when the mantissa is zero or the
  value is at most \<open>2^-1075\<close>, half of the least positive double.
\<close>

definition number_is_zero :: "nat \<Rightarrow> int \<Rightarrow> bool" where
  "number_is_zero m e = (m = 0 \<or> (e < 0 \<and> m * 2 ^ 1075 \<le> 10 ^ nat (- e)))"

text \<open>
  \<open>x === 404\<close> for a number literal: its double is 404 when the value is within
  \<open>2^-45\<close> of 404, half the distance to the neighbouring doubles.
\<close>

definition number_is_404 :: "bool \<Rightarrow> nat \<Rightarrow> int \<Rightarrow> bool" where
  "number_is_404 neg m e =
     (\<not> neg \<and>
      (if 0 \<le> e then m * 10 ^ nat e = 404
       else (let k = 10 ^ nat (- e)
             in 2 ^ 45 * (if 404 * k \<le> m then m - 404 * k else 404 * k - m) \<le> k)))"

fun truthy :: "json \<Rightarrow> bool" where
  "truthy JNull = False"
| "truthy (JBool b) = b"
| "truthy (JNumber neg m e) = (\<not> number_is_zero m e)"
| "truthy (JString s) = (s \<noteq> [])"
| "truthy (JArray vs) = True"
| "truthy (JObject ms) = True"

section \<open>Thrown values\<close>

text \<open>
  JavaScript throws any value. A thrown \<open>null\<close> or \<open>undefined\<close> is \<open>NullOrUndefined\<close>:
  every property read on it raises a \<open>TypeError\<close>. Any other thrown value is modelled by
  what the handler reads from it: whether it is an instance of \<open>Error\<close>, its \<open>status\<close>
  when that is a number, and its own \<open>message\<close>, which may be any value (\<open>None\<close> when the
  object has none). A thrown primitive reads like an object without the two properties.
\<close>

datatype js_error = NullOrUndefined | JsError bool "int option" "json option"

definition new_Error :: "jsstring \<Rightarrow> js_error" where
  "new_Error msg = JsError True None (Some (JString msg))"

text \<open>
  A \<open>TypeError\<close> raised by the engine (a property read on \<open>null\<close> or \<open>undefined\<close>, a call
  of a non-function). Its message text is the engine's; the model fixes one text, which
  contains none of the substrings the handler tests for.
\<close>

definition TypeError :: js_error where
  "TypeError = new_Error (js ''Cannot read properties'')"

text \<open>\<open>e instanceof Error\<close> throws for no value.\<close>

fun instanceof_Error :: "js_error \<Rightarrow> bool" where
  "instanceof_Error NullOrUndefined = False"
| "instanceof_Error (JsError isError status message) = isError"

text \<open>\<open>error.status === 429\<close>.\<close>

fun status_is_429 :: "js_error \<Rightarrow> js_error + bool" where
  "status_is_429 NullOrUndefined = Inl TypeError"
| "status_is_429 (JsError isError status message) = Inr (status = Some 429)"

text \<open>
  \<open>error.message\<close>: an \<open>Error\<close> without a message of its own reads the empty one of its
  prototype, any other object without one reads \<open>undefined\<close>.
\<close>

fun read_message :: "js_error \<Rightarrow> js_error + json option" where
  "read_message NullOrUndefined = Inl TypeError"
| "read_message (JsError isError status message) =
     Inr (case message of
            None \<Rightarrow> if isError then Some (JString []) else None
          | Some v \<Rightarrow> Some v)"

text \<open>
  \<open>v.includes(sub)\<close> for a string \<open>sub\<close>: on a string the substring test, on an array the
  membership test; \<open>null\<close> and \<open>undefined\<close> have no properties, and any other value has no
  method \<open>includes\<close> to call.
\<close>

definition call_includes :: "json option \<Rightarrow> jsstring \<Rightarrow> js_error + bool" where
  "call_includes v sub =
     (case v of
        Some (JString s) \<Rightarrow> Inr (str_includes s sub)
      | Some (JArray vs) \<Rightarrow> Inr (JString sub \<in> set vs)
      | _ \<Rightarrow> Inl TypeError)"

text \<open>\<open>error.message && error.message.includes(sub)\<close>, as the condition it is used for.\<close>

definition message_includes :: "js_error \<Rightarrow> jsstring \<Rightarrow> js_error + bool" where
  "message_includes error sub =
     (case read_message error of
        Inl thrown \<Rightarrow> Inl thrown
      | Inr None \<Rightarrow> Inr False
      | Inr (Some v) \<Rightarrow> if truthy v then call_includes (Some v) sub else Inr False)"

text \<open>\<open>a || b\<close> on two conditions that may throw: \<open>b\<close> is evaluated when \<open>a\<close> is false.\<close>

definition or_else :: "js_error + bool \<Rightarrow> js_error + bool \<Rightarrow> js_error + bool" where
  "or_else a b = (case a of Inl thrown \<Rightarrow> Inl thrown | Inr x \<Rightarrow> if x then Inr True else b)"

text \<open>\<open>json.choices[0]?.delta?.content\<close>: a \<open>TypeError\<close>, \<open>undefined\<close> or the value.\<close>

definition delta_content :: "json \<Rightarrow> js_error + json option" where
  "delta_content json =
     (if json = JNull then Inl TypeError
      else (case get_prop json (js ''choices'') of
              None \<Rightarrow> Inl TypeError
            | Some choices \<Rightarrow>
                if choices = JNull then Inl TypeError
                else (case index0 choices of
                        None \<Rightarrow> Inr None
                      | Some c0 \<Rightarrow>
                          if c0 = JNull then Inr None
                          else (case get_prop c0 (js ''delta'') of
                                  None \<Rightarrow> Inr None
                                | Some delta \<Rightarrow>
                                    if delta = JNull then Inr None
                                    else Inr (get_prop delta (js ''content''))))))"

section \<open>The platform\<close>

text \<open>
  What the handler uses and the repository's sources under study do not define is a
  parameter: the conversion of a value that is not a string to a string
  (\<open>ToString\<close>), the host name of a URL (\<open>new URL(url).hostname\<close>, \<open>None\<close> when the
  constructor throws), and \<open>getUserFriendlyError\<close> of \<open>agents/errorUtils\<close>, which
  returns a string or throws.
\<close>

record platform =
  ToString :: "json \<Rightarrow> jsstring"
  URL_hostname :: "jsstring \<Rightarrow> jsstring option"
  getUserFriendlyError :: "js_error \<Rightarrow> js_error + jsstring"

definition to_text :: "'a platform_scheme \<Rightarrow> json \<Rightarrow> jsstring" where
  "to_text pf v = (case v of JString s \<Rightarrow> s | _ \<Rightarrow> ToString pf v)"

text \<open>A value that was read from a property, in a template literal.\<close>

definition template_text :: "'a platform_scheme \<Rightarrow> json option \<Rightarrow> jsstring" where
  "template_text pf v = (case v of None \<Rightarrow> js ''undefined'' | Some x \<Rightarrow> to_text pf x)"

section \<open>streamOpenRouter\<close>

text \<open>
  An async generator is modelled by what iterating it to its end gives: the values it
  yields, in order, and the value it throws after them, if any. A body that is read
  arrives as a finite sequence of decoded text chunks, followed by the end of the stream
  or by a failure of \<open>reader.read()\<close>.
\<close>

type_synonym 'a generator = "'a list \<times> js_error option"

record http_response =
  resp_status :: nat
  resp_json :: "js_error + json"
  resp_text :: "js_error + jsstring"
  resp_body :: "(jsstring list \<times> js_error option) option"

definition resp_ok :: "http_response \<Rightarrow> bool" where
  "resp_ok r = (200 \<le> resp_status r \<and> resp_status r \<le> 299)"

definition unavailable_Error :: "jsstring \<Rightarrow> js_error" where
  "unavailable_Error model =
     new_Error (js ''The model '' @ [34] @ model @ [34]
                @ js '' is currently unavailable via OpenRouter (No providers). Please select a different model.'')"

text \<open>
  \<open>errorData.error?.message?.includes("No allowed providers")\<close>, given
  \<open>errorData.error\<close>: on a string the substring test, on an array the membership test,
  on \<open>null\<close> or \<open>undefined\<close> the chain stops with \<open>undefined\<close>, and any other value has
  no method \<open>includes\<close> to call.
\<close>

definition message_includes_no_providers :: "json option \<Rightarrow> js_error + bool" where
  "message_includes_no_providers err =
     (if nullish err then Inr False
      else (case get_prop (the err) (js ''message'') of
              None \<Rightarrow> Inr False
            | Some JNull \<Rightarrow> Inr False
            | Some (JString s) \<Rightarrow> Inr (str_includes s (js ''No allowed providers''))
            | Some (JArray vs) \<Rightarrow> Inr (JString (js ''No allowed providers'') \<in> set vs)
            | Some _ \<Rightarrow> Inl TypeError))"

definition error_code_is_404 :: "json option \<Rightarrow> bool" where
  "error_code_is_404 err =
     (if nullish err then False
      else (case get_prop (the err) (js ''code'') of
              Some (JNumber neg m e) \<Rightarrow> number_is_404 neg m e
            | _ \<Rightarrow> False))"

text \<open>The \<open>try\<close> block of the failure branch: what it throws, or \<open>errorMsg\<close> at its end.\<close>

definition read_error_data :: "http_response \<Rightarrow> jsstring \<Rightarrow> json \<Rightarrow> js_error + json" where
  "read_error_data response model errorMsg =
     (case resp_json response of
        Inl e \<Rightarrow> Inl e
      | Inr errorData \<Rightarrow>
          if errorData = JNull then Inl TypeError
          else
            (let err = get_prop errorData (js ''error'');
                 message = (if nullish err then None else get_prop (the err) (js ''message''))
             in if resp_status response = 404 then
                  (case message_includes_no_providers err of
                     Inl e \<Rightarrow> Inl e
                   | Inr found \<Rightarrow>
                       if found \<or> error_code_is_404 err then Inl (unavailable_Error model)
                       else (case message of
                               None \<Rightarrow> Inr errorMsg
                             | Some m \<Rightarrow> if truthy m then Inr m else Inr errorMsg))
                else (case message of
                        None \<Rightarrow> Inr errorMsg
                      | Some m \<Rightarrow> if truthy m then Inr m else Inr errorMsg)))"

text \<open>
  The value thrown for a response that is not \<open>ok\<close>. The \<open>catch\<close> block tests
  \<open>e instanceof Error && e.message.includes("currently unavailable")\<close>; what this test
  throws leaves the generator in place of the error.
\<close>

definition openrouter_failure :: "'a platform_scheme \<Rightarrow> http_response \<Rightarrow> jsstring \<Rightarrow> js_error" where
  "openrouter_failure pf response model =
     (let errorMsg = js ''OpenRouter Error ('' @ show_nat (resp_status response) @ js '')''
      in case read_error_data response model (JString errorMsg) of
           Inr msg \<Rightarrow> new_Error (to_text pf msg)
         | Inl e \<Rightarrow>
             (case (if instanceof_Error e then
                      (case read_message e of
                         Inl thrown \<Rightarrow> Inl thrown
                       | Inr m \<Rightarrow> call_includes m (js ''currently unavailable''))
                    else Inr False) of
                Inl thrown \<Rightarrow> thrown
              | Inr rethrow \<Rightarrow>
                  if rethrow then e
                  else
                    (let textError = (case resp_text response of Inl _ \<Rightarrow> [] | Inr t \<Rightarrow> t)
                     in new_Error (if textError \<noteq> [] then errorMsg @ js '': '' @ textError else errorMsg))))"

text \<open>One line of the event stream: the deltas it yields.\<close>

definition process_line :: "jsstring \<Rightarrow> json list" where
  "process_line line =
     (if startsWith line (js ''data: '') \<and> line \<noteq> js ''data: [DONE]'' then
        (case JSON_parse (drop 6 line) of
           None \<Rightarrow> []
         | Some json \<Rightarrow>
             (case delta_content json of
                Inl e \<Rightarrow> []
              | Inr None \<Rightarrow> []
              | Inr (Some content) \<Rightarrow> if truthy content then [content] else []))
      else [])"

text \<open>
  The read loop, from the buffer and the chunks still to come. When the stream is done
  the loop breaks, and what the buffer holds is not processed.
\<close>

fun read_loop :: "jsstring \<Rightarrow> jsstring list \<Rightarrow> json list" where
  "read_loop buffer [] = []"
| "read_loop buffer (val # rest) =
     (let lines = split_nl (buffer @ val)
      in concat (map process_line (butlast lines)) @ read_loop (last lines) rest)"

text \<open>
  The body of \<open>streamOpenRouter\<close>, from the outcome of \<open>fetch\<close>. The outer \<open>catch\<close>
  rethrows what it catches.
\<close>

definition streamOpenRouter :: "'a platform_scheme \<Rightarrow> js_error + http_response \<Rightarrow> jsstring \<Rightarrow> json generator" where
  "streamOpenRouter pf fetched model =
     (case fetched of
        Inl e \<Rightarrow> ([], Some e)
      | Inr response \<Rightarrow>
          if \<not> resp_ok response then ([], Some (openrouter_failure pf response model))
          else (case resp_body response of
                  None \<Rightarrow> ([], Some (new_Error (js ''No response body from OpenRouter'')))
                | Some (chunks, failure) \<Rightarrow> (read_loop [] chunks, failure)))"

section \<open>generateContentStreamWithRetry\<close>

text \<open>
  Effects are recorded in a trace: \<open>Emit\<close> is one call of the streaming sink
  \<open>onStreamChunk\<close> (or of the callback \<open>onRetry\<close>) with its argument, \<open>Wait\<close> one
  awaited \<open>setTimeout\<close> delay in milliseconds, \<open>IncrementThinking\<close> one call of
  \<open>incrementThinkingCount\<close>.
\<close>

datatype effect = Emit jsstring | Wait nat | IncrementThinking

text \<open>The condition \<open>isQuotaError\<close> of the \<open>catch\<close> block, or what evaluating it throws.\<close>

definition isQuotaError :: "js_error \<Rightarrow> js_error + bool" where
  "isQuotaError error =
     or_else (status_is_429 error)
       (or_else (message_includes error (js ''429'')) (message_includes error (js ''quota'')))"

definition backoff_delay :: "nat \<Rightarrow> nat" where
  "backoff_delay attempt = 2 ^ attempt * 2000 + 1000"

definition retry_notice :: "nat \<Rightarrow> jsstring" where
  "retry_notice delay =
     js ''(Rate limit hit. Retrying in '' @ show_nat (delay div 1000) @ js ''s...)''"

text \<open>
  \<open>call attempt\<close> is the outcome of \<open>ai.models.generateContentStream(params)\<close> in
  iteration \<open>attempt\<close> of the loop: the value it throws or the stream it returns.
  \<open>onRetry\<close> is the optional callback, given by the effects of one call. The result is
  the trace of the call and what it throws or returns. \<open>retries\<close> is an integer. The
  guard that fills in a missing \<open>params.model\<close> changes the request only.
\<close>

function retry_loop ::
  "(nat \<Rightarrow> js_error + 's) \<Rightarrow> int \<Rightarrow> (jsstring \<Rightarrow> effect list) option \<Rightarrow> nat
     \<Rightarrow> effect list \<times> (js_error + 's)"
where
  "retry_loop call retries onRetry attempt =
     (if int attempt \<le> retries then
        (case call attempt of
           Inr stream \<Rightarrow> ([], Inr stream)
         | Inl error \<Rightarrow>
             (case isQuotaError error of
                Inl thrown \<Rightarrow> ([], Inl thrown)
              | Inr quota \<Rightarrow>
                  if quota \<and> int attempt < retries then
                    (let delay = backoff_delay attempt;
                         notice = (case onRetry of None \<Rightarrow> [] | Some f \<Rightarrow> f (retry_notice delay));
                         (effs, res) = retry_loop call retries onRetry (Suc attempt)
                     in (notice @ [Wait delay] @ effs, res))
                  else ([], Inl error)))
      else ([], Inl (new_Error (js ''Max retries exceeded''))))"
  by pat_completeness auto
termination
  by (relation "measure (\<lambda>(call, retries, onRetry, attempt). nat (retries + 1 - int attempt))") auto

declare retry_loop.simps [simp del]

definition generateContentStreamWithRetry ::
  "(nat \<Rightarrow> js_error + 's) \<Rightarrow> int \<Rightarrow> (jsstring \<Rightarrow> effect list) option
     \<Rightarrow> effect list \<times> (js_error + 's)"
where
  "generateContentStreamWithRetry call retries onRetry = retry_loop call retries onRetry 0"

section \<open>The directive tags\<close>

text \<open>
  The part \<open>(.*?)close\<close> of a pattern, tried at the head of the text: the lazy group
  takes the fewest characters, none of them a line terminator, after which \<open>close\<close>
  follows. The result is the group.
\<close>

fun lazy_capture :: "jsstring \<Rightarrow> jsstring \<Rightarrow> jsstring option" where
  "lazy_capture close [] = (if close = [] then Some [] else None)"
| "lazy_capture close (c # cs) =
     (if startsWith (c # cs) close then Some []
      else if is_line_terminator c then None
      else (case lazy_capture close cs of None \<Rightarrow> None | Some cap \<Rightarrow> Some (c # cap)))"

text \<open>
  \<open>text.match(/open(.*?)close/)\<close> for a non-empty \<open>open\<close>: the match that starts
  leftmost, by its group 1.
\<close>

fun match_tag :: "jsstring \<Rightarrow> jsstring \<Rightarrow> jsstring \<Rightarrow> jsstring option" where
  "match_tag opn close [] = None"
| "match_tag opn close (c # cs) =
     (if startsWith (c # cs) opn then
        (case lazy_capture close (drop (length opn) (c # cs)) of
           Some cap \<Rightarrow> Some cap
         | None \<Rightarrow> match_tag opn close cs)
      else match_tag opn close cs)"

text \<open>The same under the \<open>i\<close> flag.\<close>

fun lazy_capture_ci :: "jsstring \<Rightarrow> jsstring \<Rightarrow> jsstring option" where
  "lazy_capture_ci close [] = (if close = [] then Some [] else None)"
| "lazy_capture_ci close (c # cs) =
     (if startsWith_ci (c # cs) close then Some []
      else if is_line_terminator c then None
      else (case lazy_capture_ci close cs of None \<Rightarrow> None | Some cap \<Rightarrow> Some (c # cap)))"

text \<open>
  \<open>\s+\<close> followed by \<open>(.*?)close\<close>: the greedy quantifier first takes \<open>k\<close> white-space
  characters, as many as there are, and gives them back one by one while the rest of
  the pattern fails.
\<close>

fun spaces_then_capture :: "jsstring \<Rightarrow> nat \<Rightarrow> jsstring \<Rightarrow> jsstring option" where
  "spaces_then_capture close 0 s = None"
| "spaces_then_capture close (Suc k) s =
     (case lazy_capture_ci close (drop (Suc k) s) of
        Some cap \<Rightarrow> Some cap
      | None \<Rightarrow> spaces_then_capture close k s)"

text \<open>\<open>text.match(/<SEARCH>deep\s+(.*?)<\/SEARCH>/i)\<close>, by its group 1.\<close>

fun match_deep_search :: "jsstring \<Rightarrow> jsstring option" where
  "match_deep_search [] = None"
| "match_deep_search (c # cs) =
     (if startsWith_ci (c # cs) (js ''<SEARCH>deep'') then
        (let rest = drop 12 (c # cs)
         in case spaces_then_capture (js ''</SEARCH>'') (length (takeWhile is_white_space rest)) rest of
              Some cap \<Rightarrow> Some cap
            | None \<Rightarrow> match_deep_search cs)
      else match_deep_search cs)"

datatype RouterAction = SIMPLE | SEARCH | DEEP_SEARCH | THINK | IMAGE | CANVAS | PROJECT | STUDY

text \<open>The seven matches on the text generated in one hop.\<close>

definition searchMatch :: "jsstring \<Rightarrow> jsstring option" where
  "searchMatch generatedThisLoop = match_tag (js ''<SEARCH>'') (js ''</SEARCH>'') generatedThisLoop"

definition deepMatch :: "jsstring \<Rightarrow> jsstring option" where
  "deepMatch generatedThisLoop =
     (case match_tag (js ''<DEEP>'') (js ''</DEEP>'') generatedThisLoop of
        Some cap \<Rightarrow> Some cap
      | None \<Rightarrow> match_deep_search generatedThisLoop)"

text \<open>\<open>thinkMatch\<close>: no match, a match of \<open>/<THINK>/\<close> without a group, or a match with group 1.\<close>

definition thinkMatch :: "jsstring \<Rightarrow> jsstring option option" where
  "thinkMatch generatedThisLoop =
     (case match_tag (js ''<THINK>'') (js ''</THINK>'') generatedThisLoop of
        Some cap \<Rightarrow> Some (Some cap)
      | None \<Rightarrow> if str_includes generatedThisLoop (js ''<THINK>'') then Some None else None)"

definition imageMatch :: "jsstring \<Rightarrow> jsstring option" where
  "imageMatch generatedThisLoop = match_tag (js ''<IMAGE>'') (js ''</IMAGE>'') generatedThisLoop"

definition projectMatch :: "jsstring \<Rightarrow> jsstring option" where
  "projectMatch generatedThisLoop = match_tag (js ''<PROJECT>'') (js ''</PROJECT>'') generatedThisLoop"

definition canvasMatch :: "jsstring \<Rightarrow> jsstring option" where
  "canvasMatch generatedThisLoop = match_tag (js ''<CANVAS>'') (js ''</CANVAS>'') generatedThisLoop"

definition studyMatch :: "jsstring \<Rightarrow> jsstring option" where
  "studyMatch generatedThisLoop = match_tag (js ''<STUDY>'') (js ''</STUDY>'') generatedThisLoop"

text \<open>
  The chain of \<open>if (match) { ...; continue; }\<close> after a SIMPLE hop: the next action and
  the next prompt, or \<open>None\<close> when no tag matches. \<open>prompt\<close> is the prompt of the turn.
\<close>

definition next_directive :: "jsstring \<Rightarrow> jsstring \<Rightarrow> (RouterAction \<times> jsstring) option" where
  "next_directive generatedThisLoop prompt =
     (case deepMatch generatedThisLoop of
        Some cap \<Rightarrow> Some (DEEP_SEARCH, cap)
      | None \<Rightarrow>
     (case searchMatch generatedThisLoop of
        Some cap \<Rightarrow> Some (SEARCH, cap)
      | None \<Rightarrow>
     (case thinkMatch generatedThisLoop of
        Some m \<Rightarrow>
          Some (THINK, (case m of None \<Rightarrow> prompt | Some cap \<Rightarrow> if cap \<noteq> [] then trim cap else prompt))
      | None \<Rightarrow>
     (case imageMatch generatedThisLoop of
        Some cap \<Rightarrow> Some (IMAGE, cap)
      | None \<Rightarrow>
     (case projectMatch generatedThisLoop of
        Some cap \<Rightarrow> Some (PROJECT, cap)
      | None \<Rightarrow>
     (case canvasMatch generatedThisLoop of
        Some cap \<Rightarrow> Some (CANVAS, cap)
      | None \<Rightarrow>
     (case studyMatch generatedThisLoop of
        Some cap \<Rightarrow> Some (STUDY, cap)
      | None \<Rightarrow> None)))))))"

section \<open>The agent loop\<close>

subsection \<open>Input, collaborators, state\<close>

text \<open>
  The fields of \<open>AgentInput\<close> that decide the control flow. \<open>in_project\<close> and \<open>in_chat\<close>
  hold the \<open>id\<close> of \<open>project\<close> and of \<open>chat\<close>, \<open>None\<close> when the object is missing, so that
  reading \<open>project.id\<close> throws. \<open>in_files\<close> gives for each attached file whether the
  \<open>FileReader\<close> fails, and with what. \<open>in_onStreamChunk\<close> tells whether a sink is given,
  \<open>in_openrouter_api_key\<close> whether the profile has a key. The history, the API key and
  the user only enter the requests sent to the collaborators.
\<close>

record agent_input =
  in_prompt :: jsstring
  in_files :: "js_error option list"
  in_project :: "jsstring option"
  in_chat :: "jsstring option"
  in_openrouter_api_key :: bool
  in_onStreamChunk :: bool
  in_model :: "jsstring option"

text \<open>
  The collaborators answer as they please: each is a function of the hop in which it is
  called (and, for the native stream, of the attempt), of the model and of the prompt it
  is called with. System instruction, memory block, date, history and file payload of a
  request are not modelled further. A native chunk is its \<open>text\<close> and its grounding
  chunks, when it has them. \<open>youtubeMatch\<close> and \<open>youtubeShortMatch\<close> are the results of the
  two regular-expression matches on the prompt: the whole match and group 1.
  \<open>createClients\<close> is what the construction of the API client, the router and the memory
  throws, if anything.
\<close>

type_synonym native_chunk = "jsstring option \<times> json list option"

record environment = platform +
  createClients :: "js_error option"
  youtubeMatch :: "jsstring \<Rightarrow> (jsstring \<times> jsstring) option"
  youtubeShortMatch :: "jsstring \<Rightarrow> (jsstring \<times> jsstring) option"
  route :: "jsstring \<Rightarrow> js_error + RouterAction \<times> jsstring option"
  getContext :: "js_error option"
  deepResearch :: "nat \<Rightarrow> jsstring \<Rightarrow> jsstring list \<times> (js_error + jsstring \<times> jsstring list)"
  incrementThinkingCount :: "js_error option"
  generateContentStream :: "nat \<Rightarrow> jsstring \<Rightarrow> jsstring \<Rightarrow> nat \<Rightarrow> js_error + native_chunk generator"
  generateContent :: "jsstring \<Rightarrow> js_error + jsstring"
  generateImage :: "jsstring \<Rightarrow> js_error + jsstring"
  runCanvasAgent :: "jsstring \<Rightarrow> jsstring list \<times> (js_error + jsstring option list)"
  fetch :: "nat \<Rightarrow> jsstring \<Rightarrow> jsstring \<Rightarrow> js_error + http_response"

record message =
  project_id :: jsstring
  chat_id :: jsstring
  sender :: jsstring
  msg_text :: jsstring
  image_base64 :: "jsstring option"
  groundingMetadata :: "json list option"

record loop_state =
  currentAction :: RouterAction
  currentPrompt :: jsstring
  finalResponseText :: jsstring
  metadataPayload :: "json list option"
  fallbackSearchContext :: jsstring
  routing_parameters_prompt :: "jsstring option"
  trace :: "effect list"

text \<open>How the body of the loop ends: \<open>continue\<close>, \<open>return\<close> or a thrown value.\<close>

datatype control = Continue | Return message | Throw js_error

datatype chunk = Native native_chunk | Delta json

subsection \<open>Helpers\<close>

definition isGoogleModel :: "jsstring \<Rightarrow> bool" where
  "isGoogleModel model =
     (if model = [] then True
      else startsWith model (js ''gemini'') \<or> startsWith model (js ''veo'')
           \<or> str_includes model (js ''google''))"

text \<open>\<open>onStreamChunk?.(chunk)\<close>.\<close>

definition emit :: "agent_input \<Rightarrow> jsstring \<Rightarrow> effect list" where
  "emit inp chunk = (if in_onStreamChunk inp then [Emit chunk] else [])"

text \<open>The object literal of a returned message; reading \<open>project.id\<close> or \<open>chat.id\<close> may throw.\<close>

definition make_message ::
  "agent_input \<Rightarrow> jsstring \<Rightarrow> jsstring option \<Rightarrow> json list option \<Rightarrow> js_error + message"
where
  "make_message inp txt img metadata =
     (case in_project inp of
        None \<Rightarrow> Inl TypeError
      | Some pid \<Rightarrow>
          (case in_chat inp of
             None \<Rightarrow> Inl TypeError
           | Some cid \<Rightarrow>
               Inr \<lparr>project_id = pid, chat_id = cid, sender = js ''ai'', msg_text = txt,
                    image_base64 = img, groundingMetadata = metadata\<rparr>))"

definition finish :: "agent_input \<Rightarrow> loop_state \<Rightarrow> loop_state \<times> control" where
  "finish inp s =
     (case make_message inp (finalResponseText s) None (metadataPayload s) of
        Inl e \<Rightarrow> (s, Throw e)
      | Inr m \<Rightarrow> (s, Return m))"

text \<open>\<open>JSON.stringify\<close> of a string: the quoted text.\<close>

definition hex_digit :: "nat \<Rightarrow> nat" where
  "hex_digit d = (if d < 10 then 48 + d else 87 + d)"

definition unicode_escape :: "nat \<Rightarrow> jsstring" where
  "unicode_escape c =
     [92, 117, hex_digit (c div 4096 mod 16), hex_digit (c div 256 mod 16),
      hex_digit (c div 16 mod 16), hex_digit (c mod 16)]"

definition is_high_surrogate :: "nat \<Rightarrow> bool" where
  "is_high_surrogate c = (55296 \<le> c \<and> c \<le> 56319)"

definition is_low_surrogate :: "nat \<Rightarrow> bool" where
  "is_low_surrogate c = (56320 \<le> c \<and> c \<le> 57343)"

fun quote_chars :: "jsstring \<Rightarrow> jsstring" where
  "quote_chars [] = []"
| "quote_chars [c] =
     (if c = 8 then [92, 98] else if c = 9 then [92, 116] else if c = 10 then [92, 110]
      else if c = 12 then [92, 102] else if c = 13 then [92, 114] else if c = 34 then [92, 34]
      else if c = 92 then [92, 92]
      else if c < 32 \<or> is_high_surrogate c \<or> is_low_surrogate c then unicode_escape c
      else [c])"
| "quote_chars (c # d # ds) =
     (if is_high_surrogate c \<and> is_low_surrogate d then c # d # quote_chars ds
      else quote_chars [c] @ quote_chars (d # ds))"

definition image_generation_start :: "jsstring \<Rightarrow> jsstring" where
  \<open>image_generation_start txt =
     js ''{"type":"image_generation_start","text":"'' @ quote_chars txt @ js ''"}''\<close>

text \<open>The status notices, with the characters the source file has in them.\<close>

definition searching_notice :: jsstring where
  "searching_notice = js ''\<newline>Searching sources... '' @ [240, 376, 338] @ js ''\<newline>''"

definition thinking_notice :: jsstring where
  "thinking_notice = js ''\<newline>Thinking deeply... '' @ [240, 376, 167, 160] @ js ''\<newline>''"

definition building_notice :: jsstring where
  "building_notice = js ''\<newline>Building project structure... '' @ [240, 376, 8212, 239, 184] @ js ''\<newline>''"

definition study_notice :: jsstring where
  "study_notice = js ''\<newline>Creating study plan... '' @ [240, 376, 381, 8220] @ js ''\<newline>''"

definition key_missing_notice :: jsstring where
  "key_missing_notice = js ''\<newline>*(OpenRouter key missing, falling back to Gemini...)*\<newline>''"

definition fallback_notice :: "jsstring \<Rightarrow> jsstring" where
  "fallback_notice model = js ''\<newline>*(Model '' @ model @ js '' unavailable, switching to Gemini...)*\<newline>''"

definition default_model :: jsstring where
  "default_model = js ''gemini-2.5-flash''"

definition synthesisPrompt :: "jsstring \<Rightarrow> jsstring \<Rightarrow> jsstring" where
  "synthesisPrompt currentPrompt' searchContext =
     js ''USER QUERY: '' @ currentPrompt' @ js ''\<newline>\<newline>SEARCH CONTEXT:\<newline>'' @ searchContext
     @ js ''\<newline>\<newline>INSTRUCTIONS: Synthesize a comprehensive answer to the user's query based ONLY on the provided search context. Cite sources using [1], [2] format where appropriate.''"

text \<open>One source URL as a grounding entry \<open>{ web: { uri, title } }\<close>.\<close>

definition source_metadata :: "'a platform_scheme \<Rightarrow> jsstring \<Rightarrow> json" where
  "source_metadata pf url =
     (let hostname = (case URL_hostname pf url of
                        None \<Rightarrow> js ''Source''
                      | Some h \<Rightarrow> replace_first h (js ''www.'') [])
      in JObject [(js ''web'', JObject [(js ''uri'', JString url), (js ''title'', JString hostname)])])"

subsection \<open>Consuming a stream\<close>

definition chunk_truthy :: "chunk \<Rightarrow> bool" where
  "chunk_truthy ch =
     (case ch of
        Native (t, g) \<Rightarrow> (case t of None \<Rightarrow> False | Some txt \<Rightarrow> txt \<noteq> [])
      | Delta v \<Rightarrow> truthy v)"

definition chunk_text :: "'a platform_scheme \<Rightarrow> chunk \<Rightarrow> jsstring" where
  "chunk_text pf ch =
     (case ch of
        Native (t, g) \<Rightarrow> (case t of None \<Rightarrow> [] | Some txt \<Rightarrow> txt)
      | Delta v \<Rightarrow> to_text pf v)"

definition chunk_grounding :: "chunk \<Rightarrow> json list option" where
  "chunk_grounding ch = (case ch of Native (t, g) \<Rightarrow> g | Delta v \<Rightarrow> None)"

text \<open>
  One iteration of the \<open>for await\<close> loop over the chunks of a stream, on
  \<open>generatedThisLoop\<close> and the state. \<open>grounded\<close> is \<open>isNative || usedFallback\<close>. The
  sink receives \<open>chunk.text\<close>; the trace records it as text.
\<close>

definition consume_chunk ::
  "'a platform_scheme \<Rightarrow> agent_input \<Rightarrow> bool \<Rightarrow> jsstring \<times> loop_state \<Rightarrow> chunk
     \<Rightarrow> jsstring \<times> loop_state"
where
  "consume_chunk pf inp grounded acc ch =
     (if chunk_truthy ch then
        (let t = chunk_text pf ch;
             s = snd acc;
             s1 = s\<lparr>finalResponseText := finalResponseText s @ t, trace := trace s @ emit inp t\<rparr>;
             s2 = (if grounded then
                     (case chunk_grounding ch of
                        None \<Rightarrow> s1
                      | Some groundingChunks \<Rightarrow>
                          s1\<lparr>metadataPayload :=
                               Some ((case metadataPayload s1 of None \<Rightarrow> [] | Some g \<Rightarrow> g)
                                     @ groundingChunks)\<rparr>)
                   else s1)
         in (fst acc @ t, s2))
      else acc)"

definition consume ::
  "'a platform_scheme \<Rightarrow> agent_input \<Rightarrow> bool \<Rightarrow> chunk list \<Rightarrow> jsstring \<times> loop_state
     \<Rightarrow> jsstring \<times> loop_state"
where
  "consume pf inp grounded chunks acc = foldl (consume_chunk pf inp grounded) acc chunks"

subsection \<open>The action branches\<close>

text \<open>
  Each branch takes the state at the head of the iteration and gives the state at its
  end and how it ends. \<open>loopCount\<close> is the number of the hop, \<open>model\<close>, \<open>isNative\<close> and
  \<open>prompt\<close> are the variables of the turn.
\<close>

definition native_stream ::
  "environment \<Rightarrow> agent_input \<Rightarrow> nat \<Rightarrow> jsstring \<Rightarrow> jsstring
     \<Rightarrow> effect list \<times> (js_error + native_chunk generator)"
where
  "native_stream env inp loopCount model' currentPrompt' =
     generateContentStreamWithRetry (generateContentStream env loopCount model' currentPrompt') 3
       (Some (emit inp))"

text \<open>The end of a branch that streams one generator to its end and returns.\<close>

definition stream_and_return ::
  "environment \<Rightarrow> agent_input \<Rightarrow> loop_state \<Rightarrow> effect list \<times> (js_error + native_chunk generator)
     \<Rightarrow> loop_state \<times> control"
where
  "stream_and_return env inp s called =
     (let s1 = s\<lparr>trace := trace s @ fst called\<rparr>
      in case snd called of
           Inl e \<Rightarrow> (s1, Throw e)
         | Inr response \<Rightarrow>
             (let s2 = snd (consume env inp False (map Native (fst response)) ([], s1))
              in case snd response of
                   Some e \<Rightarrow> (s2, Throw e)
                 | None \<Rightarrow> finish inp s2))"

definition search_hop :: "environment \<Rightarrow> agent_input \<Rightarrow> nat \<Rightarrow> loop_state \<Rightarrow> loop_state \<times> control" where
  "search_hop env inp loopCount s =
     (let researched = deepResearch env loopCount (currentPrompt s);
          s1 = s\<lparr>trace := trace s @ emit inp searching_notice
                      @ concat (map (\<lambda>msg. emit inp (js ''\<newline>*'' @ msg @ js ''*'')) (fst researched))\<rparr>
      in case snd researched of
           Inl e \<Rightarrow> (s1, Throw e)
         | Inr (answer, sources) \<Rightarrow>
             (let s2 = (if sources \<noteq> [] then s1\<lparr>metadataPayload := Some (map (source_metadata env) sources)\<rparr>
                        else s1)
              in (s2\<lparr>fallbackSearchContext := answer,
                      currentPrompt := synthesisPrompt (currentPrompt s) answer,
                      currentAction := SIMPLE\<rparr>, Continue)))"

definition think_hop ::
  "environment \<Rightarrow> agent_input \<Rightarrow> nat \<Rightarrow> jsstring \<Rightarrow> loop_state \<Rightarrow> loop_state \<times> control"
where
  "think_hop env inp loopCount model' s =
     (if \<not> isGoogleModel model' \<or> \<not> str_includes model' (js ''gemini-2.5'') then
        (s\<lparr>currentAction := SIMPLE\<rparr>, Continue)
      else
        (let s1 = s\<lparr>trace := trace s @ emit inp thinking_notice @ [IncrementThinking]\<rparr>
         in case incrementThinkingCount env of
              Some e \<Rightarrow> (s1, Throw e)
            | None \<Rightarrow> stream_and_return env inp s1 (native_stream env inp loopCount model' (currentPrompt s))))"

text \<open>\<open>e instanceof Error ? e.message : 'Unknown error'\<close>, as the template literal prints it.\<close>

definition failure_reason :: "'a platform_scheme \<Rightarrow> js_error \<Rightarrow> js_error + jsstring" where
  "failure_reason pf e =
     (if instanceof_Error e then map_sum id (template_text pf) (read_message e)
      else Inr (js ''Unknown error''))"

text \<open>
  The \<open>catch\<close> block of the IMAGE branch: it catches what \<open>generateImage\<close> and the
  \<open>return\<close> after it throw, and returns the text with the reason appended.
\<close>

definition image_failed ::
  "environment \<Rightarrow> agent_input \<Rightarrow> loop_state \<Rightarrow> js_error \<Rightarrow> loop_state \<times> control"
where
  "image_failed env inp s e =
     (case failure_reason env e of
        Inl thrown \<Rightarrow> (s, Throw thrown)
      | Inr reason \<Rightarrow>
          (let errorMsg = js ''\<newline>\<newline>(Image generation failed: '' @ reason @ js '')''
           in finish inp (s\<lparr>finalResponseText := finalResponseText s @ errorMsg,
                             trace := trace s @ emit inp errorMsg\<rparr>)))"

text \<open>\<open>routing.parameters?.prompt || currentPrompt\<close>.\<close>

definition imagePrompt :: "loop_state \<Rightarrow> jsstring" where
  "imagePrompt s =
     (case routing_parameters_prompt s of
        None \<Rightarrow> currentPrompt s
      | Some p \<Rightarrow> if p \<noteq> [] then p else currentPrompt s)"

definition image_hop :: "environment \<Rightarrow> agent_input \<Rightarrow> loop_state \<Rightarrow> loop_state \<times> control" where
  "image_hop env inp s =
     (let s1 = s\<lparr>trace := trace s @ emit inp (image_generation_start (finalResponseText s))\<rparr>
      in case generateImage env (imagePrompt s) of
           Inl e \<Rightarrow> image_failed env inp s1 e
         | Inr imageBase64 \<Rightarrow>
             (case make_message inp (finalResponseText s1) (Some imageBase64) (metadataPayload s1) of
                Inl e \<Rightarrow> image_failed env inp s1 e
              | Inr m \<Rightarrow> (s1, Return m)))"

definition canvas_hop :: "environment \<Rightarrow> agent_input \<Rightarrow> loop_state \<Rightarrow> loop_state \<times> control" where
  "canvas_hop env inp s =
     (let canvasResult = runCanvasAgent env (currentPrompt s);
          s1 = s\<lparr>trace := trace s @ concat (map (emit inp) (fst canvasResult))\<rparr>
      in case snd canvasResult of
           Inl e \<Rightarrow> (s1, Throw e)
         | Inr messages \<Rightarrow>
             (case messages of
                [] \<Rightarrow> (s1, Throw TypeError)
              | canvasMessage # _ \<Rightarrow>
                  finish inp (s1\<lparr>finalResponseText := (case canvasMessage of None \<Rightarrow> [] | Some t \<Rightarrow> t)\<rparr>)))"

definition project_hop ::
  "environment \<Rightarrow> agent_input \<Rightarrow> jsstring \<Rightarrow> loop_state \<Rightarrow> loop_state \<times> control"
where
  "project_hop env inp model' s =
     (if \<not> isGoogleModel model' then (s\<lparr>currentAction := SIMPLE\<rparr>, Continue)
      else
        (let s1 = s\<lparr>trace := trace s @ emit inp building_notice\<rparr>
         in case generateContent env (currentPrompt s) of
              Inl e \<Rightarrow> (s1, Throw e)
            | Inr response_text \<Rightarrow>
                (let projectMsg = js ''\<newline>I've designed the project structure based on your request.\<newline>\<newline>''
                                  @ response_text
                                  @ js ''\<newline>\<newline>(Switch to Co-Creator mode to fully hydrate and edit these files.)''
                 in finish inp (s1\<lparr>finalResponseText := finalResponseText s1 @ projectMsg,
                                    trace := trace s1 @ emit inp projectMsg\<rparr>))))"

definition study_hop ::
  "environment \<Rightarrow> agent_input \<Rightarrow> nat \<Rightarrow> jsstring \<Rightarrow> loop_state \<Rightarrow> loop_state \<times> control"
where
  "study_hop env inp loopCount model' s =
     (if \<not> isGoogleModel model' then (s\<lparr>currentAction := SIMPLE\<rparr>, Continue)
      else
        (let s1 = s\<lparr>trace := trace s @ emit inp study_notice\<rparr>
         in stream_and_return env inp s1 (native_stream env inp loopCount default_model (currentPrompt s))))"

text \<open>
  \<open>streamOpenRouter\<close> is an async generator function. Calling it creates the generator
  object and runs none of its body: the body runs when the generator is iterated, and
  what it throws is thrown there. The call expression itself completes normally.
\<close>

definition call_streamOpenRouter ::
  "environment \<Rightarrow> js_error + http_response \<Rightarrow> jsstring \<Rightarrow> js_error + json generator"
where
  "call_streamOpenRouter env fetched model' = Inr (streamOpenRouter env fetched model')"

text \<open>
  The choice of the generator in a SIMPLE hop: the effects, the generator (or what the
  choice throws) and \<open>usedFallback\<close>.
\<close>

definition select_generator ::
  "environment \<Rightarrow> agent_input \<Rightarrow> nat \<Rightarrow> jsstring \<Rightarrow> bool \<Rightarrow> jsstring
     \<Rightarrow> effect list \<times> (js_error + chunk generator) \<times> bool"
where
  "select_generator env inp loopCount model' isNative currentPrompt' =
     (if isNative then
        (let called = native_stream env inp loopCount model' currentPrompt'
         in (fst called, map_sum id (apfst (map Native)) (snd called), False))
      else
        (case call_streamOpenRouter env (fetch env loopCount model' currentPrompt') model' of
           Inr generator \<Rightarrow> ([], Inr (map Delta (fst generator), snd generator), False)
         | Inl orError \<Rightarrow>
             (case or_else (message_includes orError (js ''unavailable''))
                     (message_includes orError (js ''404'')) of
                Inl thrown \<Rightarrow> ([], Inl thrown, False)
              | Inr fallback \<Rightarrow>
                  if fallback then
                    (let called = native_stream env inp loopCount default_model currentPrompt'
                     in (emit inp (fallback_notice model') @ fst called,
                         map_sum id (apfst (map Native)) (snd called), True))
                  else ([], Inl orError, False))))"

text \<open>The end of a SIMPLE hop in which no tag matched.\<close>

definition simple_return :: "agent_input \<Rightarrow> loop_state \<Rightarrow> loop_state \<times> control" where
  "simple_return inp s =
     (if trim (finalResponseText s) = [] \<and> fallbackSearchContext s \<noteq> [] then
        finish inp (s\<lparr>finalResponseText := fallbackSearchContext s,
                       trace := trace s @ emit inp (fallbackSearchContext s)\<rparr>)
      else finish inp s)"

definition simple_hop ::
  "environment \<Rightarrow> agent_input \<Rightarrow> nat \<Rightarrow> jsstring \<Rightarrow> bool \<Rightarrow> jsstring \<Rightarrow> loop_state
     \<Rightarrow> loop_state \<times> control"
where
  "simple_hop env inp loopCount model' isNative prompt s =
     (case (if in_files inp \<noteq> [] \<and> isNative then find (\<lambda>f. f \<noteq> None) (in_files inp) else None) of
        Some failed \<Rightarrow> (s, Throw (the failed))
      | None \<Rightarrow>
          (let selected = select_generator env inp loopCount model' isNative (currentPrompt s);
               usedFallback = snd (snd selected);
               s1 = s\<lparr>trace := trace s @ fst selected\<rparr>
           in case fst (snd selected) of
                Inl e \<Rightarrow> (s1, Throw e)
              | Inr generator \<Rightarrow>
                  (let consumed = consume env inp (isNative \<or> usedFallback) (fst generator) ([], s1);
                       generatedThisLoop = fst consumed;
                       s2 = snd consumed
                   in case snd generator of
                        Some e \<Rightarrow> (s2, Throw e)
                      | None \<Rightarrow>
                          (case next_directive generatedThisLoop prompt of
                             Some (action, payload) \<Rightarrow>
                               (s2\<lparr>currentAction := action, currentPrompt := payload,
                                    routing_parameters_prompt :=
                                      (if action = IMAGE then Some payload else routing_parameters_prompt s2)\<rparr>,
                                Continue)
                           | None \<Rightarrow> simple_return inp s2))))"

text \<open>The \<open>switch\<close> on the current action.\<close>

definition hop ::
  "environment \<Rightarrow> agent_input \<Rightarrow> jsstring \<Rightarrow> bool \<Rightarrow> jsstring \<Rightarrow> nat \<Rightarrow> loop_state
     \<Rightarrow> loop_state \<times> control"
where
  "hop env inp model' isNative prompt loopCount s =
     (case currentAction s of
        SEARCH \<Rightarrow> search_hop env inp loopCount s
      | DEEP_SEARCH \<Rightarrow> search_hop env inp loopCount s
      | THINK \<Rightarrow> think_hop env inp loopCount model' s
      | IMAGE \<Rightarrow> image_hop env inp s
      | CANVAS \<Rightarrow> canvas_hop env inp s
      | PROJECT \<Rightarrow> project_hop env inp model' s
      | STUDY \<Rightarrow> study_hop env inp loopCount model' s
      | SIMPLE \<Rightarrow> simple_hop env inp loopCount model' isNative prompt s)"

subsection \<open>The loop and the turn\<close>

definition MAX_LOOPS :: nat where
  "MAX_LOOPS = 6"

text \<open>
  The \<open>while\<close> loop, from the value of \<open>loopCount\<close> and the state at its head. Only the
  head of the loop assigns \<open>loopCount\<close>. The result lists the iterations that ran, each
  by its hop number, its end state and how it ended, and gives the state at the end and
  what the loop returns or throws.
\<close>

function run_loop ::
  "environment \<Rightarrow> agent_input \<Rightarrow> jsstring \<Rightarrow> bool \<Rightarrow> jsstring \<Rightarrow> nat \<Rightarrow> loop_state
     \<Rightarrow> (nat \<times> loop_state \<times> control) list \<times> loop_state \<times> (js_error + message)"
where
  "run_loop env inp model' isNative prompt loopCount s =
     (if loopCount < MAX_LOOPS then
        (let stepped = hop env inp model' isNative prompt (loopCount + 1) s
         in case snd stepped of
              Continue \<Rightarrow>
                (let rest = run_loop env inp model' isNative prompt (loopCount + 1) (fst stepped)
                 in ((loopCount + 1, stepped) # fst rest, snd rest))
            | Return m \<Rightarrow> ([(loopCount + 1, stepped)], fst stepped, Inr m)
            | Throw e \<Rightarrow> ([(loopCount + 1, stepped)], fst stepped, Inl e))
      else ([], s, make_message inp (finalResponseText s) None (metadataPayload s)))"
  by pat_completeness auto
termination
  by (relation "measure (\<lambda>(env, inp, model', isNative, prompt, loopCount, s). MAX_LOOPS - loopCount)") auto

declare run_loop.simps [simp del]

text \<open>
  The \<open>try\<close> block up to the loop: what has been streamed, and either the value thrown
  or the variables of the turn (\<open>model\<close>, \<open>isNative\<close>, \<open>prompt\<close>) with the state in which
  the loop starts.
\<close>

definition agent_setup ::
  "environment \<Rightarrow> agent_input \<Rightarrow> jsstring
     \<Rightarrow> effect list \<times> (js_error + jsstring \<times> bool \<times> jsstring \<times> loop_state)"
where
  "agent_setup env inp model0 =
     (let isNative = isGoogleModel model0;
          keyMissing = (\<not> isNative \<and> \<not> in_openrouter_api_key inp);
          model' = (if keyMissing then default_model else model0);
          effs0 = (if keyMissing then emit inp key_missing_notice else []);
          youtubeMatch' = youtubeMatch env (in_prompt inp);
          youtubeShortMatch' = youtubeShortMatch env (in_prompt inp);
          overridden = (youtubeShortMatch' \<noteq> None \<or> youtubeMatch' \<noteq> None);
          prompt = (if overridden then
                      (let found = (case youtubeShortMatch' of Some m \<Rightarrow> m | None \<Rightarrow> the youtubeMatch')
                       in js ''Find details for YouTube ''
                          @ (if youtubeShortMatch' \<noteq> None then js ''Short'' else js ''Video'')
                          @ js '' ID: '' @ snd found @ js ''. Title, Channel, and Summary. URL: '' @ fst found)
                    else in_prompt inp)
      in case createClients env of
           Some e \<Rightarrow> (effs0, Inl e)
         | None \<Rightarrow>
        (case route env prompt of
           Inl e \<Rightarrow> (effs0, Inl e)
         | Inr routing \<Rightarrow>
             (case getContext env of
                Some e \<Rightarrow> (effs0, Inl e)
              | None \<Rightarrow>
                  (effs0,
                   Inr (model', isNative, prompt,
                        \<lparr>currentAction = (if overridden then SEARCH else fst routing),
                         currentPrompt = prompt,
                         finalResponseText = [],
                         metadataPayload = None,
                         fallbackSearchContext = [],
                         routing_parameters_prompt = (if overridden then None else snd routing),
                         trace = effs0\<rparr>)))))"

text \<open>
  The body of the \<open>try\<close> block: the trace of the turn and the message it returns, or
  what it throws.
\<close>

definition agent_try :: "environment \<Rightarrow> agent_input \<Rightarrow> jsstring \<Rightarrow> effect list \<times> (js_error + message)" where
  "agent_try env inp model0 =
     (case agent_setup env inp model0 of
        (effs0, Inl e) \<Rightarrow> (effs0, Inl e)
      | (effs0, Inr (model', isNative, prompt, s0)) \<Rightarrow>
          (let looped = run_loop env inp model' isNative prompt 0 s0
           in (trace (fst (snd looped)), snd (snd looped))))"

text \<open>The model of the turn: \<open>gemini-2.5-flash\<close> when the input names none.\<close>

definition effective_model :: "agent_input \<Rightarrow> jsstring" where
  "effective_model inp =
     (case in_model inp of
        None \<Rightarrow> default_model
      | Some m \<Rightarrow> if m = [] \<or> trim m = [] then default_model else m)"

text \<open>
  The first statement of the outer \<open>catch\<close> block,
  \<open>error.message && error.message.includes("OpenRouter") ? error.message : getUserFriendlyError(error)\<close>:
  the chosen message as the template literal prints it, or what the statement throws.
\<close>

definition chosen_message :: "environment \<Rightarrow> js_error \<Rightarrow> js_error + jsstring" where
  "chosen_message env error =
     (case message_includes error (js ''OpenRouter'') of
        Inl thrown \<Rightarrow> Inl thrown
      | Inr verbatim \<Rightarrow>
          if verbatim then map_sum id (template_text env) (read_message error)
          else getUserFriendlyError env error)"

text \<open>
  \<open>runAutonomousAgent\<close>: the trace of the turn and the messages it returns, or what it
  throws to its caller. What the \<open>catch\<close> block throws is caught by nothing: the block
  reads the thrown value, calls \<open>getUserFriendlyError\<close> and reads \<open>project.id\<close> and
  \<open>chat.id\<close> again.
\<close>

definition runAutonomousAgent :: "environment \<Rightarrow> agent_input \<Rightarrow> effect list \<times> (js_error + message list)" where
  "runAutonomousAgent env inp =
     (let tried = agent_try env inp (effective_model inp)
      in case snd tried of
           Inr m \<Rightarrow> (fst tried, Inr [m])
         | Inl error \<Rightarrow>
             (case chosen_message env error of
                Inl thrown \<Rightarrow> (fst tried, Inl thrown)
              | Inr errorMessage \<Rightarrow>
                  (fst tried,
                   map_sum id (\<lambda>m. [m])
                     (make_message inp (js ''An error occurred: '' @ errorMessage) None None))))"

section \<open>Notions used in the statements\<close>

text \<open>What one iteration of the retry loop adds to the trace when it retries.\<close>

definition retry_effects :: "(jsstring \<Rightarrow> effect list) option \<Rightarrow> nat \<Rightarrow> effect list" where
  "retry_effects onRetry attempt =
     (case onRetry of None \<Rightarrow> [] | Some f \<Rightarrow> f (retry_notice (backoff_delay attempt)))
     @ [Wait (backoff_delay attempt)]"

text \<open>The number of calls of \<open>incrementThinkingCount\<close> in a trace, and the models for which
  the THINK branch makes one.\<close>

definition increments :: "effect list \<Rightarrow> nat" where
  "increments tr = length (filter (\<lambda>e. e = IncrementThinking) tr)"

definition qualifies_for_thinking :: "jsstring \<Rightarrow> bool" where
  "qualifies_for_thinking model' = (isGoogleModel model' \<and> str_includes model' (js ''gemini-2.5''))"

text \<open>The deltas of the complete lines of a body.\<close>

definition stream_lines :: "jsstring \<Rightarrow> json list" where
  "stream_lines body = concat (map process_line (butlast (split_nl body)))"

text \<open>
  The scan for directives as the specification words it: an ordered list of tags, each
  with the extraction of its payload, processed in priority order; the first that
  matches wins. The payload of \<open>THINK\<close> is the group trimmed of white space, or the
  prompt of the turn when the tag has no group or an empty one.
\<close>

definition think_payload :: "jsstring \<Rightarrow> jsstring \<Rightarrow> jsstring option" where
  "think_payload generatedThisLoop prompt =
     (case thinkMatch generatedThisLoop of
        None \<Rightarrow> None
      | Some None \<Rightarrow> Some prompt
      | Some (Some cap) \<Rightarrow> Some (if cap \<noteq> [] then trim cap else prompt))"

definition directive_priority :: "(RouterAction \<times> (jsstring \<Rightarrow> jsstring \<Rightarrow> jsstring option)) list" where
  "directive_priority =
     [(DEEP_SEARCH, \<lambda>g p. deepMatch g), (SEARCH, \<lambda>g p. searchMatch g), (THINK, think_payload),
      (IMAGE, \<lambda>g p. imageMatch g), (PROJECT, \<lambda>g p. projectMatch g), (CANVAS, \<lambda>g p. canvasMatch g),
      (STUDY, \<lambda>g p. studyMatch g)]"

fun first_directive ::
  "(RouterAction \<times> (jsstring \<Rightarrow> jsstring \<Rightarrow> jsstring option)) list \<Rightarrow> jsstring \<Rightarrow> jsstring
     \<Rightarrow> (RouterAction \<times> jsstring) option"
where
  "first_directive [] g p = None"
| "first_directive ((action, extract) # rest) g p =
     (case extract g p of Some payload \<Rightarrow> Some (action, payload) | None \<Rightarrow> first_directive rest g p)"

subsection \<open>Concrete scenarios\<close>

definition quota_error :: js_error where
  "quota_error = JsError True (Some 429) (Some (JString (js ''Resource exhausted: quota'')))"

definition denied_error :: js_error where
  "denied_error = JsError True (Some 403) (Some (JString (js ''Permission denied'')))"

definition always_rate_limited :: "nat \<Rightarrow> js_error + unit" where
  "always_rate_limited attempt = Inl quota_error"

definition rate_limited_twice :: "nat \<Rightarrow> js_error + unit" where
  "rate_limited_twice attempt = (if attempt < 2 then Inl quota_error else Inr ())"

definition rate_limited_then_denied :: "nat \<Rightarrow> js_error + unit" where
  "rate_limited_then_denied attempt = (if attempt < 1 then Inl quota_error else Inl denied_error)"

definition sink :: "jsstring \<Rightarrow> effect list" where
  "sink msg = [Emit msg]"

definition some_platform :: platform where
  "some_platform = \<lparr>ToString = (\<lambda>v. js ''[object Object]''), URL_hostname = (\<lambda>url. None),
                     getUserFriendlyError = (\<lambda>e. Inr (js ''Something went wrong. Please try again.''))\<rparr>"

definition hi_response :: http_response where
  \<open>hi_response =
     \<lparr>resp_status = 200, resp_json = Inl TypeError, resp_text = Inl TypeError,
      resp_body = Some ([js ''data: {"choices":[{"del'',
                         js ''ta":{"content":"Hi"}}]}\<newline>\<newline>data: [DO'', js ''NE]\<newline>''], None)\<rparr>\<close>

definition corrupt_chunks :: "jsstring list" where
  \<open>corrupt_chunks =
     [js ''data: {"choices":[{"delta":{"content":"A"}}]}\<newline>data: {"choices":[{"del'',
      js ''\<newline>data: {"choices":[{"delta":{"content":"B"}}]}\<newline>'']\<close>

definition clean_chunks :: "jsstring list" where
  \<open>clean_chunks =
     [js ''data: {"choices":[{"delta":{"content":"A"}}]}\<newline>data: {"choices":[{"delta":{"content":"B"}}]}\<newline>'']\<close>

definition body_response :: "jsstring list \<Rightarrow> http_response" where
  "body_response chunks =
     \<lparr>resp_status = 200, resp_json = Inl TypeError, resp_text = Inl TypeError,
      resp_body = Some (chunks, None)\<rparr>"

definition quiet_environment :: environment where
  "quiet_environment =
     \<lparr>ToString = (\<lambda>v. js ''[object Object]''), URL_hostname = (\<lambda>url. None),
      getUserFriendlyError = (\<lambda>e. Inr (js ''Something went wrong. Please try again.'')),
      createClients = None, youtubeMatch = (\<lambda>p. None), youtubeShortMatch = (\<lambda>p. None),
      route = (\<lambda>p. Inr (SIMPLE, None)), getContext = None,
      deepResearch = (\<lambda>n p. ([], Inr ([], []))), incrementThinkingCount = None,
      generateContentStream = (\<lambda>n m p a. Inr ([], None)),
      generateContent = (\<lambda>p. Inr []), generateImage = (\<lambda>p. Inr []),
      runCanvasAgent = (\<lambda>p. ([], Inr [Some []])),
      fetch = (\<lambda>n m p. Inl (new_Error (js ''Failed to fetch'')))\<rparr>"

definition think_loop_environment :: environment where
  "think_loop_environment =
     quiet_environment
       \<lparr>route := (\<lambda>p. Inr (THINK, None)),
        generateContentStream := (\<lambda>n m p a. Inr ([(Some (js ''<THINK>''), None)], None))\<rparr>"

definition think_loop_input :: agent_input where
  "think_loop_input =
     \<lparr>in_prompt = js ''Think it over'', in_files = [], in_project = Some (js ''project-1''),
      in_chat = Some (js ''chat-1''), in_openrouter_api_key = False, in_onStreamChunk = True,
      in_model = Some (js ''gemini-1.5-pro'')\<rparr>"

definition think_loop_state :: "RouterAction \<Rightarrow> jsstring \<Rightarrow> effect list \<Rightarrow> loop_state" where
  "think_loop_state action body streamed =
     \<lparr>currentAction = action, currentPrompt = js ''Think it over'', finalResponseText = body,
      metadataPayload = None, fallbackSearchContext = [], routing_parameters_prompt = None,
      trace = streamed\<rparr>"

definition think_loop_iterations :: "(nat \<times> loop_state \<times> control) list" where
  "think_loop_iterations =
     [(1, think_loop_state SIMPLE [] [], Continue),
      (2, think_loop_state THINK (js ''<THINK>'') [Emit (js ''<THINK>'')], Continue),
      (3, think_loop_state SIMPLE (js ''<THINK>'') [Emit (js ''<THINK>'')], Continue),
      (4, think_loop_state THINK (js ''<THINK>'' @ js ''<THINK>'')
            [Emit (js ''<THINK>''), Emit (js ''<THINK>'')], Continue),
      (5, think_loop_state SIMPLE (js ''<THINK>'' @ js ''<THINK>'')
            [Emit (js ''<THINK>''), Emit (js ''<THINK>'')], Continue),
      (6, think_loop_state THINK (js ''<THINK>'' @ js ''<THINK>'' @ js ''<THINK>'')
            [Emit (js ''<THINK>''), Emit (js ''<THINK>''), Emit (js ''<THINK>'')], Continue)]"

definition failing_router_environment :: environment where
  "failing_router_environment =
     quiet_environment\<lparr>route := (\<lambda>p. Inl (JsError False (Some 503) (Some (JString (js ''Service unavailable'')))))\<rparr>"




definition plain_input :: agent_input where
  "plain_input =
     \<lparr>in_prompt = js ''weather in Paris'', in_files = [], in_project = Some (js ''project-1''),
      in_chat = Some (js ''chat-1''), in_openrouter_api_key = False, in_onStreamChunk = True,
      in_model = None\<rparr>"

definition interrupted_environment :: environment where
  "interrupted_environment =
     quiet_environment
       \<lparr>route := (\<lambda>p. Inr (SEARCH, None)),
        deepResearch := (\<lambda>n p. if n = 1
                                then ([js ''Reading forecasts''],
                                      Inr (js ''Paris is sunny.'', [js ''https://www.meteo.example/paris'']))
                                else ([], Inl (new_Error (js ''Failed to fetch'')))),
        generateContentStream :=
          (\<lambda>n m p a. Inr ([(Some (js ''Checking. <SEARCH>paris tomorrow</SEARCH>''), None)], None))\<rparr>"

definition interrupted_state :: "RouterAction \<Rightarrow> jsstring \<Rightarrow> jsstring \<Rightarrow> effect list \<Rightarrow> loop_state" where
  "interrupted_state action p body streamed =
     \<lparr>currentAction = action, currentPrompt = p, finalResponseText = body,
      metadataPayload = Some [source_metadata interrupted_environment (js ''https://www.meteo.example/paris'')],
      fallbackSearchContext = js ''Paris is sunny.'', routing_parameters_prompt = None,
      trace = streamed\<rparr>"

definition interrupted_start :: loop_state where
  "interrupted_start =
     \<lparr>currentAction = SEARCH, currentPrompt = js ''weather in Paris'', finalResponseText = [],
      metadataPayload = None, fallbackSearchContext = [], routing_parameters_prompt = None,
      trace = []\<rparr>"

definition interrupted_trace :: "effect list" where
  "interrupted_trace =
     [Emit searching_notice, Emit (js ''\<newline>*'' @ js ''Reading forecasts'' @ js ''*''),
      Emit (js ''Checking. <SEARCH>paris tomorrow</SEARCH>''), Emit searching_notice]"

definition no_providers_response :: http_response where
  "no_providers_response =
     \<lparr>resp_status = 404,
      resp_json = Inr (JObject [(js ''error'',
                    JObject [(js ''message'', JString (js ''No allowed providers are available for the selected model.'')),
                             (js ''code'', JNumber False 404 0)])]),
      resp_text = Inr [], resp_body = None\<rparr>"

definition unavailable_environment :: environment where
  "unavailable_environment = quiet_environment\<lparr>fetch := (\<lambda>n m p. Inr no_providers_response)\<rparr>"

definition aggregator_input :: agent_input where
  "aggregator_input =
     \<lparr>in_prompt = js ''hello'', in_files = [], in_project = Some (js ''project-1''),
      in_chat = Some (js ''chat-1''), in_openrouter_api_key = True, in_onStreamChunk = True,
      in_model = Some (js ''meta-llama/llama-3-70b'')\<rparr>"

definition aggregator_start :: loop_state where
  "aggregator_start =
     \<lparr>currentAction = SIMPLE, currentPrompt = js ''hello'', finalResponseText = [],
      metadataPayload = None, fallbackSearchContext = [], routing_parameters_prompt = None,
      trace = []\<rparr>"

section \<open>Properties of the retry loop\<close>

lemma retry_loop_success:
  "int attempt \<le> retries \<Longrightarrow> call attempt = Inr s \<Longrightarrow>
   retry_loop call retries onRetry attempt = ([], Inr s)"
  by (subst retry_loop.simps) simp

lemma retry_loop_quota:
  "int attempt < retries \<Longrightarrow> call attempt = Inl e \<Longrightarrow> isQuotaError e = Inr True \<Longrightarrow>
   retry_loop call retries onRetry attempt =
     (retry_effects onRetry attempt @ fst (retry_loop call retries onRetry (Suc attempt)),
      snd (retry_loop call retries onRetry (Suc attempt)))"
  by (subst retry_loop.simps) (simp add: split_beta Let_def retry_effects_def)

lemma retry_loop_throw:
  "int attempt \<le> retries \<Longrightarrow> call attempt = Inl e \<Longrightarrow> isQuotaError e = Inr quota \<Longrightarrow>
   \<not> (quota \<and> int attempt < retries) \<Longrightarrow>
   retry_loop call retries onRetry attempt = ([], Inl e)"
  by (subst retry_loop.simps) auto

lemma retry_loop_catch_throws:
  "int attempt \<le> retries \<Longrightarrow> call attempt = Inl e \<Longrightarrow> isQuotaError e = Inl thrown \<Longrightarrow>
   retry_loop call retries onRetry attempt = ([], Inl thrown)"
  by (subst retry_loop.simps) simp

lemma retry_loop_exhausted:
  "retries < int attempt \<Longrightarrow>
   retry_loop call retries onRetry attempt = ([], Inl (new_Error (js ''Max retries exceeded'')))"
  by (subst retry_loop.simps) simp

text \<open>While the attempts fail with a rate-limit error, each adds its notice and its wait.\<close>

lemma retry_loop_prefix:
  "\<forall>a. attempt \<le> a \<and> a < k \<longrightarrow> (\<exists>e. call a = Inl e \<and> isQuotaError e = Inr True) \<Longrightarrow>
   int k \<le> retries \<Longrightarrow> attempt \<le> k \<Longrightarrow>
   retry_loop call retries onRetry attempt =
     (concat (map (retry_effects onRetry) [attempt..<k]) @ fst (retry_loop call retries onRetry k),
      snd (retry_loop call retries onRetry k))"
proof (induction "k - attempt" arbitrary: attempt)
  case 0
  then show ?case by simp
next
  case (Suc n)
  then have lt: "attempt < k" by simp
  with Suc.prems obtain e where e: "call attempt = Inl e" "isQuotaError e = Inr True" by blast
  have step: "retry_loop call retries onRetry attempt =
     (retry_effects onRetry attempt @ fst (retry_loop call retries onRetry (Suc attempt)),
      snd (retry_loop call retries onRetry (Suc attempt)))"
    using lt Suc.prems(2) e by (intro retry_loop_quota) auto
  have ih: "retry_loop call retries onRetry (Suc attempt) =
     (concat (map (retry_effects onRetry) [Suc attempt..<k]) @ fst (retry_loop call retries onRetry k),
      snd (retry_loop call retries onRetry k))"
    using Suc.hyps(2) Suc.prems lt by (intro Suc.hyps(1)) auto
  show ?case
    using lt by (simp add: step ih upt_conv_Cons)
qed

lemma retry_notice_3s: "retry_notice (backoff_delay 0) = js ''(Rate limit hit. Retrying in 3s...)''"
  by (simp add: retry_notice_def backoff_delay_def show_nat.simps digit_char_def js_def)

lemma retry_notice_5s: "retry_notice (backoff_delay (Suc 0)) = js ''(Rate limit hit. Retrying in 5s...)''"
  by (simp add: retry_notice_def backoff_delay_def show_nat.simps digit_char_def js_def)

lemma retry_notice_9s: "retry_notice (backoff_delay (Suc (Suc 0))) = js ''(Rate limit hit. Retrying in 9s...)''"
  by (simp add: retry_notice_def backoff_delay_def show_nat.simps digit_char_def js_def)

lemma upt_2: "[0..<2] = [0, Suc 0]"
  by (simp add: upt_conv_Cons numeral_2_eq_2)

lemma upt_3: "[0..<3] = [0, Suc 0, Suc (Suc 0)]"
  by (simp add: upt_conv_Cons numeral_3_eq_3)

lemma quota_error_is_quota: "isQuotaError quota_error = Inr True"
  by (simp add: isQuotaError_def quota_error_def or_else_def)

lemma denied_error_not_quota: "isQuotaError denied_error = Inr False"
  by (simp add: isQuotaError_def denied_error_def message_includes_def call_includes_def or_else_def js_def)

text \<open>
  Claim C4. With \<open>retries = 3\<close>, when attempts 0 and 1 fail with a rate-limit error and
  attempt 2 succeeds, \<open>generateContentStreamWithRetry\<close> returns the stream of attempt 2,
  and its trace is exactly: the retry notice announcing 3 seconds, a wait of 3000 ms, the
  retry notice announcing 5 seconds, a wait of 5000 ms. The delay of an attempt is
  \<open>2 ^ attempt * 2000 + 1000\<close>. A failure that is not a rate-limit error, at any
  attempt \<open>k\<close> reached after \<open>k\<close> rate-limit failures, is thrown at once: nothing is
  added to the trace for it and no later attempt is made. (When the test for a rate-limit
  error itself throws, as it does on a thrown \<open>null\<close>, the value it throws is thrown at
  once in place of the failure.)
\<close>

theorem retry_twice_then_success:
  "(call 0 = Inl e0 \<and> isQuotaError e0 = Inr True \<and> call 1 = Inl e1 \<and> isQuotaError e1 = Inr True \<and> call 2 = Inr stream
      \<longrightarrow> generateContentStreamWithRetry call 3 (Some onRetry) =
            (onRetry (js ''(Rate limit hit. Retrying in 3s...)'') @ [Wait 3000]
             @ onRetry (js ''(Rate limit hit. Retrying in 5s...)'') @ [Wait 5000], Inr stream))
   \<and> (\<forall>attempt. backoff_delay attempt = 2 ^ attempt * 2000 + 1000)
   \<and> (\<forall>k e. int k \<le> retries \<and> (\<forall>a < k. \<exists>e'. call' a = Inl e' \<and> isQuotaError e' = Inr True)
                \<and> call' k = Inl e \<and> isQuotaError e \<noteq> Inr True
        \<longrightarrow> generateContentStreamWithRetry call' retries onRetry' =
              (concat (map (retry_effects onRetry') [0..<k]),
               Inl (case isQuotaError e of Inl thrown \<Rightarrow> thrown | Inr quota \<Rightarrow> e)))"
proof (intro conjI impI allI)
  assume a: "call 0 = Inl e0 \<and> isQuotaError e0 = Inr True \<and> call 1 = Inl e1 \<and> isQuotaError e1 = Inr True \<and> call 2 = Inr stream"
  have q: "\<forall>a. 0 \<le> a \<and> a < 2 \<longrightarrow> (\<exists>e. call a = Inl e \<and> isQuotaError e = Inr True)"
  proof (intro allI impI)
    fix n :: nat assume "0 \<le> n \<and> n < 2"
    then have "n = 0 \<or> n = 1" by auto
    with a show "\<exists>e. call n = Inl e \<and> isQuotaError e = Inr True" by auto
  qed
  have last: "retry_loop call 3 (Some onRetry) 2 = ([], Inr stream)"
    using a by (intro retry_loop_success) auto
  show "generateContentStreamWithRetry call 3 (Some onRetry) =
            (onRetry (js ''(Rate limit hit. Retrying in 3s...)'') @ [Wait 3000]
             @ onRetry (js ''(Rate limit hit. Retrying in 5s...)'') @ [Wait 5000], Inr stream)"
    unfolding generateContentStreamWithRetry_def
    using retry_loop_prefix [OF q, of 3 "Some onRetry"]
    by (simp add: last upt_2 retry_effects_def retry_notice_3s retry_notice_5s)
       (simp add: backoff_delay_def)
next
  fix attempt show "backoff_delay attempt = 2 ^ attempt * 2000 + 1000" by (simp add: backoff_delay_def)
next
  fix k e
  assume h: "int k \<le> retries \<and> (\<forall>a < k. \<exists>e'. call' a = Inl e' \<and> isQuotaError e' = Inr True)
                \<and> call' k = Inl e \<and> isQuotaError e \<noteq> Inr True"
  then have q: "\<forall>a. 0 \<le> a \<and> a < k \<longrightarrow> (\<exists>e. call' a = Inl e \<and> isQuotaError e = Inr True)" by blast
  have last: "retry_loop call' retries onRetry' k =
                ([], Inl (case isQuotaError e of Inl thrown \<Rightarrow> thrown | Inr quota \<Rightarrow> e))"
  proof (cases "isQuotaError e")
    case (Inl thrown)
    then show ?thesis using h by (simp add: retry_loop_catch_throws)
  next
    case (Inr quota)
    with h have "\<not> quota" by simp
    with Inr h show ?thesis by (simp add: retry_loop_throw [where quota = quota])
  qed
  show "generateContentStreamWithRetry call' retries onRetry' =
              (concat (map (retry_effects onRetry') [0..<k]),
               Inl (case isQuotaError e of Inl thrown \<Rightarrow> thrown | Inr quota \<Rightarrow> e))"
    unfolding generateContentStreamWithRetry_def
    using retry_loop_prefix [OF q, of retries onRetry'] h by (simp add: last)
qed

theorem retry_twice_then_success_witness:
  "generateContentStreamWithRetry rate_limited_twice 3 (Some sink) =
     ([Emit (js ''(Rate limit hit. Retrying in 3s...)''), Wait 3000,
       Emit (js ''(Rate limit hit. Retrying in 5s...)''), Wait 5000], Inr ())
   \<and> generateContentStreamWithRetry rate_limited_then_denied 3 (Some sink) =
     ([Emit (js ''(Rate limit hit. Retrying in 3s...)''), Wait 3000], Inl denied_error)"
proof -
  note inst = retry_twice_then_success
    [where call = rate_limited_twice and ?e0.0 = quota_error and ?e1.0 = quota_error and stream = "()"
       and onRetry = sink and call' = rate_limited_then_denied and retries = 3 and onRetry' = "Some sink"]
  have first: "generateContentStreamWithRetry rate_limited_twice 3 (Some sink) =
     (sink (js ''(Rate limit hit. Retrying in 3s...)'') @ [Wait 3000]
      @ sink (js ''(Rate limit hit. Retrying in 5s...)'') @ [Wait 5000], Inr ())"
    using inst quota_error_is_quota by (simp add: rate_limited_twice_def)
  have "int 1 \<le> 3 \<and> (\<forall>a < 1. \<exists>e'. rate_limited_then_denied a = Inl e' \<and> isQuotaError e' = Inr True)
          \<and> rate_limited_then_denied 1 = Inl denied_error \<and> isQuotaError denied_error \<noteq> Inr True"
    using quota_error_is_quota denied_error_not_quota by (simp add: rate_limited_then_denied_def)
  with inst have "generateContentStreamWithRetry rate_limited_then_denied 3 (Some sink) =
     (concat (map (retry_effects (Some sink)) [0..<1]),
      Inl (case isQuotaError denied_error of Inl thrown \<Rightarrow> thrown | Inr quota \<Rightarrow> denied_error))"
    by blast
  then show ?thesis
    using first
    by (simp add: sink_def retry_effects_def retry_notice_3s denied_error_not_quota)
       (simp add: backoff_delay_def)
qed

text \<open>
  Claim C5, as amended. When every attempt (0 through \<open>retries\<close>, with \<open>retries\<close> not
  negative) fails with a rate-limit error, the call retries \<open>retries\<close> times, each time
  after its notice and its wait, and then throws the rate-limit error of the last
  attempt. It throws \<open>Max retries exceeded\<close> only when \<open>retries\<close> is negative, and then
  without any attempt.
\<close>

theorem retries_exhausted_rethrows_last_error:
  "(0 \<le> retries \<and> (\<forall>a. int a \<le> retries \<longrightarrow> (\<exists>e. call a = Inl e \<and> isQuotaError e = Inr True))
      \<longrightarrow> generateContentStreamWithRetry call retries onRetry =
            (concat (map (retry_effects onRetry) [0..<nat retries]), call (nat retries)))
   \<and> (retries < 0 \<longrightarrow> generateContentStreamWithRetry call retries onRetry =
            ([], Inl (new_Error (js ''Max retries exceeded''))))"
proof (intro conjI impI)
  assume h: "0 \<le> retries \<and> (\<forall>a. int a \<le> retries \<longrightarrow> (\<exists>e. call a = Inl e \<and> isQuotaError e = Inr True))"
  then have q: "\<forall>a. 0 \<le> a \<and> a < nat retries \<longrightarrow> (\<exists>e. call a = Inl e \<and> isQuotaError e = Inr True)" by auto
  from h obtain e where e: "call (nat retries) = Inl e" "isQuotaError e = Inr True" by force
  have last: "retry_loop call retries onRetry (nat retries) = ([], Inl e)"
    using h e by (intro retry_loop_throw [where quota = True]) auto
  show "generateContentStreamWithRetry call retries onRetry =
            (concat (map (retry_effects onRetry) [0..<nat retries]), call (nat retries))"
    unfolding generateContentStreamWithRetry_def
    using retry_loop_prefix [OF q, of retries onRetry] h by (simp add: last e)
next
  assume "retries < 0"
  then show "generateContentStreamWithRetry call retries onRetry =
            ([], Inl (new_Error (js ''Max retries exceeded'')))"
    unfolding generateContentStreamWithRetry_def by (intro retry_loop_exhausted) simp
qed

theorem retries_exhausted_rethrows_last_error_witness:
  "generateContentStreamWithRetry always_rate_limited 3 (Some sink) =
     ([Emit (js ''(Rate limit hit. Retrying in 3s...)''), Wait 3000,
       Emit (js ''(Rate limit hit. Retrying in 5s...)''), Wait 5000,
       Emit (js ''(Rate limit hit. Retrying in 9s...)''), Wait 9000], Inl quota_error)
   \<and> generateContentStreamWithRetry always_rate_limited (- 1) (Some sink) =
     ([], Inl (new_Error (js ''Max retries exceeded'')))"
proof -
  have "generateContentStreamWithRetry always_rate_limited 3 (Some sink) =
          (concat (map (retry_effects (Some sink)) [0..<nat 3]), always_rate_limited (nat 3))"
    using retries_exhausted_rethrows_last_error [of 3 always_rate_limited "Some sink"]
      quota_error_is_quota by (simp add: always_rate_limited_def)
  moreover have "generateContentStreamWithRetry always_rate_limited (- 1) (Some sink) =
          ([], Inl (new_Error (js ''Max retries exceeded'')))"
    using retries_exhausted_rethrows_last_error [of "- 1" always_rate_limited "Some sink"] by simp
  ultimately show ?thesis
    by (simp add: upt_3 sink_def retry_effects_def retry_notice_3s retry_notice_5s retry_notice_9s
          always_rate_limited_def)
       (simp add: backoff_delay_def)
qed

text \<open>
  Claim C5 as stated fails: with \<open>retries = 3\<close> and every attempt failing with the same
  rate-limit error, the call throws that error, not \<open>Max retries exceeded\<close>.
\<close>

theorem max_retries_exceeded_counterexample:
  "isQuotaError quota_error = Inr True
   \<and> always_rate_limited 0 = Inl quota_error \<and> always_rate_limited 1 = Inl quota_error
   \<and> always_rate_limited 2 = Inl quota_error \<and> always_rate_limited 3 = Inl quota_error
   \<and> generateContentStreamWithRetry always_rate_limited 3 None =
       ([Wait 3000, Wait 5000, Wait 9000], Inl quota_error)
   \<and> Inl quota_error \<noteq> (Inl (new_Error (js ''Max retries exceeded'')) :: js_error + unit)"
proof -
  have q: "\<forall>a. 0 \<le> a \<and> a < 3 \<longrightarrow> (\<exists>e. always_rate_limited a = Inl e \<and> isQuotaError e = Inr True)"
    using quota_error_is_quota by (simp add: always_rate_limited_def)
  have last: "retry_loop always_rate_limited 3 None 3 = ([], Inl quota_error)"
    by (intro retry_loop_throw [where quota = True])
       (simp_all add: always_rate_limited_def quota_error_is_quota)
  have "generateContentStreamWithRetry always_rate_limited 3 None =
          ([Wait 3000, Wait 5000, Wait 9000], Inl quota_error)"
    unfolding generateContentStreamWithRetry_def
    using retry_loop_prefix [OF q, of 3 None]
    by (simp add: last upt_3 retry_effects_def backoff_delay_def)
  then show ?thesis
    using quota_error_is_quota
    by (simp add: always_rate_limited_def quota_error_def new_Error_def)
qed

section \<open>Properties of the event-stream reader\<close>

lemma split_nl_not_Nil [simp]: "split_nl s \<noteq> []"
  by (induction s) (auto split: list.splits)

lemma split_nl_append:
  "split_nl (a @ b) = butlast (split_nl a) @ split_nl (last (split_nl a) @ b)"
proof (induction a)
  case Nil
  show ?case by simp
next
  case (Cons c cs)
  show ?case
  proof (cases "c = 10")
    case True
    then show ?thesis using Cons by simp
  next
    case False
    obtain l ls where sp: "split_nl cs = l # ls" by (cases "split_nl cs") auto
    show ?thesis
    proof (cases ls)
      case Nil
      with sp Cons have "split_nl (cs @ b) = split_nl (l @ b)" by simp
      with False sp Nil show ?thesis by simp
    next
      case (Cons m ms)
      with sp have bl: "butlast (split_nl cs) = l # butlast ls" "last (split_nl cs) = last ls" by simp_all
      from Cons.IH bl have "split_nl (cs @ b) = l # butlast ls @ split_nl (last ls @ b)" by simp
      with False sp Cons show ?thesis by simp
    qed
  qed
qed

lemma split_nl_no_newline: "10 \<notin> set s \<Longrightarrow> split_nl s = [s]"
  by (induction s) auto

lemma last_split_nl_no_newline: "10 \<notin> set (last (split_nl s))"
  by (induction s) (auto split: list.splits)

text \<open>However the body is cut into chunks, the reader yields the deltas of its complete lines.\<close>

lemma read_loop_lines:
  "10 \<notin> set buffer \<Longrightarrow> read_loop buffer chunks = stream_lines (buffer @ concat chunks)"
proof (induction chunks arbitrary: buffer)
  case Nil
  then show ?case by (simp add: stream_lines_def split_nl_no_newline)
next
  case (Cons v rest)
  have ih: "read_loop (last (split_nl (buffer @ v))) rest = stream_lines (last (split_nl (buffer @ v)) @ concat rest)"
    by (rule Cons.IH) (rule last_split_nl_no_newline)
  have "split_nl ((buffer @ v) @ concat rest) =
          butlast (split_nl (buffer @ v)) @ split_nl (last (split_nl (buffer @ v)) @ concat rest)"
    by (rule split_nl_append)
  then have "butlast (split_nl (buffer @ v @ concat rest)) =
          butlast (split_nl (buffer @ v)) @ butlast (split_nl (last (split_nl (buffer @ v)) @ concat rest))"
    by (simp add: butlast_append)
  then show ?case
    by (simp add: ih stream_lines_def Let_def)
qed

lemma streamOpenRouter_ok:
  "resp_ok r \<Longrightarrow> resp_body r = Some (chunks, failure) \<Longrightarrow>
   streamOpenRouter pf (Inr r) model = (stream_lines (concat chunks), failure)"
  using read_loop_lines [of "[]" chunks] by (simp add: streamOpenRouter_def)

lemma split_nl_line: "10 \<notin> set l \<Longrightarrow> split_nl (l @ 10 # rest) = l # split_nl rest"
  by (induction l) auto

lemma split_nl_single_empty: "split_nl s = [[]] \<Longrightarrow> s = []"
  by (cases s) (auto split: list.splits if_splits)

lemma split_nl_ends_newline: "pre = [] \<or> last pre = 10 \<Longrightarrow> last (split_nl pre) = []"
  by (induction pre) (auto split: list.splits if_splits dest: split_nl_single_empty)

lemma stream_lines_after:
  "pre = [] \<or> last pre = 10 \<Longrightarrow> stream_lines (pre @ b) = stream_lines pre @ stream_lines b"
  using split_nl_append [of pre b] by (simp add: stream_lines_def split_nl_ends_newline butlast_append)

lemma stream_lines_line: "10 \<notin> set l \<Longrightarrow> stream_lines (l @ 10 # rest) = process_line l @ stream_lines rest"
  by (simp add: stream_lines_def split_nl_line)

lemma process_line_malformed:
  "JSON_parse frag = None \<Longrightarrow> process_line (js ''data: '' @ frag) = []"
  by (simp add: process_line_def js_def)

lemma stream_lines_hi:
  \<open>stream_lines (js ''data: {"choices":[{"delta":{"content":"Hi"}}]}\<newline>\<newline>data: [DONE]\<newline>'')
     = [JString (js ''Hi'')]\<close>
  by code_simp

text \<open>
  Claim C7. For a successful response whose body, in whatever chunks it arrives, is the
  line \<open>data: {"choices":[{"delta":{"content":"Hi"}}]}\<close>, an empty line and the line
  \<open>data: [DONE]\<close>, each ended by a line feed, \<open>streamOpenRouter\<close> yields exactly the
  delta \<open>Hi\<close> and completes. A line \<open>data: \<close> followed by a fragment that \<open>JSON.parse\<close>
  rejects is skipped: the stream yields, and ends, as it does for the body without that
  line.
\<close>

theorem streamOpenRouter_events:
  \<open>(resp_ok r \<and> resp_body r = Some (chunks, None)
      \<and> concat chunks = js ''data: {"choices":[{"delta":{"content":"Hi"}}]}\<newline>\<newline>data: [DONE]\<newline>''
      \<longrightarrow> streamOpenRouter pf (Inr r) model = ([JString (js ''Hi'')], None))
   \<and> (resp_ok r1 \<and> resp_body r1 = Some (chunks1, failure)
      \<and> resp_ok r2 \<and> resp_body r2 = Some (chunks2, failure)
      \<and> concat chunks1 = pre @ js ''data: '' @ frag @ [10] @ post
      \<and> concat chunks2 = pre @ post
      \<and> (pre = [] \<or> last pre = 10) \<and> 10 \<notin> set frag \<and> JSON_parse frag = None
      \<longrightarrow> streamOpenRouter pf (Inr r1) model1 = streamOpenRouter pf (Inr r2) model2)\<close>
proof (intro conjI impI)
  assume \<open>resp_ok r \<and> resp_body r = Some (chunks, None)
      \<and> concat chunks = js ''data: {"choices":[{"delta":{"content":"Hi"}}]}\<newline>\<newline>data: [DONE]\<newline>''\<close>
  then show "streamOpenRouter pf (Inr r) model = ([JString (js ''Hi'')], None)"
    using streamOpenRouter_ok [of r chunks None pf model] by (simp add: stream_lines_hi)
next
  assume h: "resp_ok r1 \<and> resp_body r1 = Some (chunks1, failure)
      \<and> resp_ok r2 \<and> resp_body r2 = Some (chunks2, failure)
      \<and> concat chunks1 = pre @ js ''data: '' @ frag @ [10] @ post
      \<and> concat chunks2 = pre @ post
      \<and> (pre = [] \<or> last pre = 10) \<and> 10 \<notin> set frag \<and> JSON_parse frag = None"
  then have line: "10 \<notin> set (js ''data: '' @ frag)" by (simp add: js_def)
  have "stream_lines (pre @ (js ''data: '' @ frag) @ 10 # post) = stream_lines pre @ stream_lines post"
    using h stream_lines_after [of pre "(js ''data: '' @ frag) @ 10 # post"]
      stream_lines_line [OF line, of post] process_line_malformed [of frag]
    by simp
  moreover have "stream_lines (pre @ post) = stream_lines pre @ stream_lines post"
    using h stream_lines_after [of pre post] by simp
  ultimately show "streamOpenRouter pf (Inr r1) model1 = streamOpenRouter pf (Inr r2) model2"
    using h streamOpenRouter_ok [of r1 chunks1 failure pf model1]
      streamOpenRouter_ok [of r2 chunks2 failure pf model2]
    by simp
qed

lemma clean_chunks_stream:
  "streamOpenRouter some_platform (Inr (body_response clean_chunks)) (js ''some/model'')
     = ([JString (js ''A''), JString (js ''B'')], None)"
  by code_simp

theorem streamOpenRouter_events_witness:
  \<open>streamOpenRouter some_platform (Inr hi_response) (js ''some/model'') = ([JString (js ''Hi'')], None)
   \<and> JSON_parse (js ''{"choices":[{"del'') = None
   \<and> streamOpenRouter some_platform (Inr (body_response corrupt_chunks)) (js ''some/model'')
       = ([JString (js ''A''), JString (js ''B'')], None)\<close>
proof -
  have malformed: \<open>JSON_parse (js ''{"choices":[{"del'') = None\<close>
    by code_simp
  note inst = streamOpenRouter_events
    [where r = hi_response and pf = some_platform and model = "js ''some/model''"
       and ?r1.0 = "body_response corrupt_chunks" and ?chunks1.0 = corrupt_chunks
       and ?r2.0 = "body_response clean_chunks" and ?chunks2.0 = clean_chunks
       and failure = None
       and pre = \<open>js ''data: {"choices":[{"delta":{"content":"A"}}]}\<newline>''\<close>
       and frag = \<open>js ''{"choices":[{"del''\<close>
       and post = \<open>js ''data: {"choices":[{"delta":{"content":"B"}}]}\<newline>''\<close>
       and ?model1.0 = "js ''some/model''" and ?model2.0 = "js ''some/model''"
       and chunks = \<open>[js ''data: {"choices":[{"del'',
                         js ''ta":{"content":"Hi"}}]}\<newline>\<newline>data: [DO'', js ''NE]\<newline>'']\<close>]
  have first: "streamOpenRouter some_platform (Inr hi_response) (js ''some/model'') = ([JString (js ''Hi'')], None)"
    using inst by (simp add: hi_response_def resp_ok_def js_def)
  have second: "streamOpenRouter some_platform (Inr (body_response corrupt_chunks)) (js ''some/model'')
      = streamOpenRouter some_platform (Inr (body_response clean_chunks)) (js ''some/model'')"
    using inst malformed
    by (simp add: body_response_def resp_ok_def corrupt_chunks_def clean_chunks_def js_def)
  show ?thesis
    using first second malformed clean_chunks_stream by simp
qed

section \<open>Properties of the directive scan\<close>

lemma startsWith_append_self [simp]: "startsWith (p @ s) p"
  by (induction p) auto

lemma startsWith_ci_append_self [simp]: "startsWith_ci (p @ s) p"
  by (induction p) auto







lemma next_directive_priority: "next_directive g prompt = first_directive directive_priority g prompt"
  by (simp add: next_directive_def directive_priority_def think_payload_def split: option.splits)


lemma lazy_capture_ci_self: "lazy_capture_ci close (close @ post) = Some []"
proof (cases "close @ post")
  case Nil
  then show ?thesis by simp
next
  case (Cons c cs)
  have "startsWith_ci (close @ post) close" by simp
  then have "startsWith_ci (c # cs) close" unfolding Cons .
  then have "lazy_capture_ci close (c # cs) = Some []" by simp
  then show ?thesis unfolding Cons .
qed

lemma lazy_capture_ci_present:
  "\<forall>c\<in>set payload. \<not> is_line_terminator c \<Longrightarrow> lazy_capture_ci close (payload @ close @ post) \<noteq> None"
proof (induction payload)
  case Nil
  show ?case by (simp add: lazy_capture_ci_self)
next
  case (Cons c cs)
  then show ?case by (auto split: option.splits)
qed

lemma ascii_upper_less_than: "ascii_upper c = 60 \<longleftrightarrow> c = 60"
  unfolding ascii_upper_def by (cases "97 \<le> c \<and> c \<le> 122") auto

lemma startsWith_ci_less_than: "c \<noteq> 60 \<Longrightarrow> \<not> startsWith_ci (c # cs) (60 # ps)"
proof -
  assume "c \<noteq> 60"
  moreover have u: "ascii_upper 60 = 60" by (simp add: ascii_upper_def)
  ultimately have "ascii_upper c \<noteq> ascii_upper 60" by (simp only: u ascii_upper_less_than) simp
  then show ?thesis by simp
qed

lemma lazy_capture_ci_exact:
  "\<forall>c\<in>set payload. \<not> is_line_terminator c \<Longrightarrow> 60 \<notin> set payload \<Longrightarrow>
   lazy_capture_ci (60 # close) (payload @ (60 # close) @ post) = Some payload"
proof (induction payload)
  case Nil
  show ?case using lazy_capture_ci_self [of "60 # close" post] by simp
next
  case (Cons c cs)
  then have "\<not> startsWith_ci (c # cs @ (60 # close) @ post) (60 # close)"
    by (intro startsWith_ci_less_than) simp
  with Cons show ?case by simp
qed

lemma spaces_then_capture_some:
  "1 \<le> k \<Longrightarrow> k \<le> k0 \<Longrightarrow> lazy_capture_ci close (drop k s) \<noteq> None \<Longrightarrow>
   spaces_then_capture close k0 s \<noteq> None"
proof (induction k0)
  case 0
  then show ?case by simp
next
  case (Suc n)
  show ?case
  proof (cases "k = Suc n")
    case True
    with Suc.prems show ?thesis by (auto split: option.splits)
  next
    case False
    with Suc.prems have "k \<le> n" by simp
    with Suc show ?thesis by (auto split: option.splits)
  qed
qed

lemma takeWhile_spaces_length:
  "\<forall>c\<in>set ws. is_white_space c \<Longrightarrow> length ws \<le> length (takeWhile is_white_space (ws @ rest))"
  by simp

lemma match_deep_search_suffix:
  "match_deep_search s \<noteq> None \<Longrightarrow> match_deep_search (pre @ s) \<noteq> None"
  by (induction pre) (auto simp: Let_def split: option.splits)

lemma match_deep_search_skip:
  "60 \<notin> set pre \<Longrightarrow> match_deep_search (pre @ s) = match_deep_search s"
proof (induction pre)
  case Nil
  show ?case by simp
next
  case (Cons c cs)
  then have "c \<noteq> 60" by simp
  then have "\<not> startsWith_ci (c # cs @ s) (60 # js ''SEARCH>deep'')"
    by (rule startsWith_ci_less_than)
  then have "\<not> startsWith_ci (c # cs @ s) (js ''<SEARCH>deep'')"
    by (simp add: js_def)
  with Cons show ?case by simp
qed

lemma deep_prefix:
  assumes "map ascii_upper d = js ''DEEP''"
  shows "startsWith_ci (js ''<SEARCH>'' @ d @ rest) (js ''<SEARCH>deep'')"
    and "drop 12 (js ''<SEARCH>'' @ d @ rest) = rest"
proof -
  from assms have "length (map ascii_upper d) = 4" by (simp add: js_def)
  then have "length d = 4" by simp
  then obtain d1 d2 d3 d4 where d: "d = [d1, d2, d3, d4]"
    by (auto simp: length_Suc_conv numeral_eq_Suc)
  with assms show "startsWith_ci (js ''<SEARCH>'' @ d @ rest) (js ''<SEARCH>deep'')"
    by (simp add: js_def ascii_upper_def)
  from d show "drop 12 (js ''<SEARCH>'' @ d @ rest) = rest"
    by (simp add: js_def)
qed

lemma match_deep_search_head:
  "startsWith_ci s (js ''<SEARCH>deep'') \<Longrightarrow>
   spaces_then_capture (js ''</SEARCH>'') (length (takeWhile is_white_space (drop 12 s))) (drop 12 s) = Some cap \<Longrightarrow>
   match_deep_search s = Some cap"
  by (cases s) (auto simp: Let_def js_def)

lemma match_deep_search_head_some:
  "startsWith_ci s (js ''<SEARCH>deep'') \<Longrightarrow>
   spaces_then_capture (js ''</SEARCH>'') (length (takeWhile is_white_space (drop 12 s))) (drop 12 s) \<noteq> None \<Longrightarrow>
   match_deep_search s \<noteq> None"
  using match_deep_search_head by blast

lemma deep_search_tag_matches:
  assumes "map ascii_upper d = js ''DEEP''" "ws \<noteq> []" "\<forall>c\<in>set ws. is_white_space c"
    "\<forall>c\<in>set payload. \<not> is_line_terminator c"
  shows "match_deep_search (pre @ js ''<SEARCH>'' @ d @ ws @ payload @ js ''</SEARCH>'' @ post) \<noteq> None"
proof -
  let ?rest = "ws @ payload @ js ''</SEARCH>'' @ post"
  have "lazy_capture_ci (js ''</SEARCH>'') (drop (length ws) ?rest) \<noteq> None"
    using lazy_capture_ci_present [OF assms(4)] by simp
  then have "spaces_then_capture (js ''</SEARCH>'') (length (takeWhile is_white_space ?rest)) ?rest \<noteq> None"
    using assms(2) takeWhile_spaces_length [OF assms(3)]
    by (intro spaces_then_capture_some [where k = "length ws"]) (auto simp: Suc_le_eq)
  then have "match_deep_search (js ''<SEARCH>'' @ d @ ?rest) \<noteq> None"
    using deep_prefix [OF assms(1), of ?rest] by (intro match_deep_search_head_some) simp_all
  then show ?thesis by (rule match_deep_search_suffix)
qed

lemma deep_search_tag_exact:
  assumes "map ascii_upper d = js ''DEEP''" "ws \<noteq> []" "\<forall>c\<in>set ws. is_white_space c"
    "\<forall>c\<in>set payload. \<not> is_line_terminator c"
    "60 \<notin> set pre" "60 \<notin> set payload" "payload = [] \<or> \<not> is_white_space (hd payload)"
  shows "match_deep_search (pre @ js ''<SEARCH>'' @ d @ ws @ payload @ js ''</SEARCH>'' @ post) = Some payload"
proof -
  let ?rest = "ws @ payload @ js ''</SEARCH>'' @ post"
  have stop: "takeWhile is_white_space (payload @ js ''</SEARCH>'' @ post) = []"
    using assms(7) by (cases payload) (auto simp: js_def is_white_space_def)
  have tw: "takeWhile is_white_space ?rest = ws"
    using assms(3) stop by simp
  obtain k where k: "length ws = Suc k" using assms(2) by (cases ws) auto
  have "lazy_capture_ci (js ''</SEARCH>'') (payload @ js ''</SEARCH>'' @ post) = Some payload"
    using lazy_capture_ci_exact [OF assms(4) assms(6), of "js ''/SEARCH>''" post] by (simp add: js_def)
  moreover have "drop (Suc k) ?rest = payload @ js ''</SEARCH>'' @ post"
    using k by simp
  ultimately have "spaces_then_capture (js ''</SEARCH>'') (length ws) ?rest = Some payload"
    unfolding k by simp
  then have "match_deep_search (js ''<SEARCH>'' @ d @ ?rest) = Some payload"
    using deep_prefix [OF assms(1), of ?rest] tw by (intro match_deep_search_head) simp_all
  then show ?thesis using match_deep_search_skip [OF assms(5)] by simp
qed

text \<open>What a match of the pattern \<open>/<SEARCH>deep\s+(.*?)<\/SEARCH>/i\<close> says of the text.\<close>

lemma startsWith_ci_decompose:
  "startsWith_ci s p \<Longrightarrow>
   s = take (length p) s @ drop (length p) s \<and> map ascii_upper (take (length p) s) = map ascii_upper p"
  by (induction s p rule: startsWith_ci.induct) auto

lemma lazy_capture_ci_sound:
  "lazy_capture_ci close s = Some cap \<Longrightarrow>
   (\<exists>c' post. s = cap @ c' @ post \<and> map ascii_upper c' = map ascii_upper close)
   \<and> (\<forall>c\<in>set cap. \<not> is_line_terminator c)"
proof (induction s arbitrary: cap)
  case Nil
  then have "close = []" "cap = []" by (auto split: if_splits)
  then show ?case by simp
next
  case (Cons c cs)
  show ?case
  proof (cases "startsWith_ci (c # cs) close")
    case True
    with Cons.prems have cap: "cap = []" by simp
    from startsWith_ci_decompose [OF True]
    have e: "c # cs = cap @ take (length close) (c # cs) @ drop (length close) (c # cs)"
      "map ascii_upper (take (length close) (c # cs)) = map ascii_upper close"
      using cap by simp_all
    show ?thesis
    proof (intro conjI exI)
      show "c # cs = cap @ take (length close) (c # cs) @ drop (length close) (c # cs)" by (rule e(1))
      show "map ascii_upper (take (length close) (c # cs)) = map ascii_upper close" by (rule e(2))
      show "\<forall>c\<in>set cap. \<not> is_line_terminator c" using cap by simp
    qed
  next
    case False
    with Cons.prems obtain cap' where c: "\<not> is_line_terminator c" "lazy_capture_ci close cs = Some cap'" "cap = c # cap'"
      by (auto split: if_splits option.splits)
    from Cons.IH [OF c(2)] obtain c' post where
      "cs = cap' @ c' @ post" "map ascii_upper c' = map ascii_upper close" "\<forall>c\<in>set cap'. \<not> is_line_terminator c"
      by blast
    with c have "c # cs = cap @ c' @ post" "map ascii_upper c' = map ascii_upper close"
      "\<forall>c\<in>set cap. \<not> is_line_terminator c" by simp_all
    then show ?thesis by blast
  qed
qed

lemma spaces_then_capture_sound:
  "spaces_then_capture close k s = Some cap \<Longrightarrow>
   \<exists>j. 1 \<le> j \<and> j \<le> k \<and> lazy_capture_ci close (drop j s) = Some cap"
proof (induction k)
  case 0
  then show ?case by simp
next
  case (Suc k)
  show ?case
  proof (cases "lazy_capture_ci close (drop (Suc k) s)")
    case None
    with Suc.prems have "spaces_then_capture close k s = Some cap" by simp
    from Suc.IH [OF this] obtain j where "1 \<le> j" "j \<le> k" "lazy_capture_ci close (drop j s) = Some cap"
      by blast
    then have "1 \<le> j \<and> j \<le> Suc k \<and> lazy_capture_ci close (drop j s) = Some cap" by simp
    then show ?thesis by blast
  next
    case (Some cap')
    with Suc.prems have "cap' = cap" by simp
    with Some have "1 \<le> Suc k \<and> Suc k \<le> Suc k \<and> lazy_capture_ci close (drop (Suc k) s) = Some cap" by simp
    then show ?thesis by blast
  qed
qed

lemma take_white_space:
  "j \<le> length (takeWhile is_white_space s) \<Longrightarrow> \<forall>c\<in>set (take j s). is_white_space c"
proof -
  assume "j \<le> length (takeWhile is_white_space s)"
  then have "take j s = take j (takeWhile is_white_space s)"
    by (metis append_eq_conv_conj append_take_drop_id take_append takeWhile_dropWhile_id
        diff_is_0_eq take_0 append_Nil2)
  moreover have "\<forall>c\<in>set (take j (takeWhile is_white_space s)). is_white_space c"
    by (meson in_set_takeD set_takeWhileD)
  ultimately show ?thesis by simp
qed

lemma deep_search_head_sound:
  assumes "startsWith_ci s (js ''<SEARCH>deep'')"
    and "spaces_then_capture (js ''</SEARCH>'') (length (takeWhile is_white_space (drop 12 s))) (drop 12 s) = Some cap"
  shows "\<exists>opn d ws close post.
           s = opn @ d @ ws @ cap @ close @ post
           \<and> map ascii_upper opn = js ''<SEARCH>'' \<and> map ascii_upper d = js ''DEEP''
           \<and> ws \<noteq> [] \<and> (\<forall>c\<in>set ws. is_white_space c)
           \<and> map ascii_upper close = js ''</SEARCH>''
           \<and> (\<forall>c\<in>set cap. \<not> is_line_terminator c)"
proof -
  have len: "length (js ''<SEARCH>deep'') = 12" by (simp add: js_def)
  from startsWith_ci_decompose [OF assms(1)]
  have s: "s = take 12 s @ drop 12 s"
    and up: "map ascii_upper (take 12 s) = map ascii_upper (js ''<SEARCH>deep'')"
    unfolding len by simp_all
  have up': "map ascii_upper (js ''<SEARCH>deep'') = js ''<SEARCH>'' @ js ''DEEP''"
    by (simp add: js_def ascii_upper_def)
  let ?opn = "take 8 (take 12 s)" and ?d = "drop 8 (take 12 s)"
  have "map ascii_upper ?opn = take 8 (map ascii_upper (take 12 s))" by (simp only: take_map)
  then have opn: "map ascii_upper ?opn = js ''<SEARCH>''"
    unfolding up up' by (simp add: js_def)
  have "map ascii_upper ?d = drop 8 (map ascii_upper (take 12 s))" by (simp only: drop_map)
  then have d: "map ascii_upper ?d = js ''DEEP''"
    unfolding up up' by (simp add: js_def)
  from spaces_then_capture_sound [OF assms(2)] obtain j where
    j: "1 \<le> j" "j \<le> length (takeWhile is_white_space (drop 12 s))"
       "lazy_capture_ci (js ''</SEARCH>'') (drop j (drop 12 s)) = Some cap"
    by blast
  let ?ws = "take j (drop 12 s)"
  have ws: "\<forall>c\<in>set ?ws. is_white_space c" using j(2) by (rule take_white_space)
  have "length (takeWhile is_white_space (drop 12 s)) \<le> length (drop 12 s)"
    by (rule length_takeWhile_le)
  with j have "length ?ws = j" by simp
  with j(1) have nonempty: "?ws \<noteq> []" by auto
  from lazy_capture_ci_sound [OF j(3)] obtain close post where
    c: "drop j (drop 12 s) = cap @ close @ post" "map ascii_upper close = map ascii_upper (js ''</SEARCH>'')"
       "\<forall>c\<in>set cap. \<not> is_line_terminator c"
    by blast
  have close: "map ascii_upper close = js ''</SEARCH>''"
    unfolding c(2) by (simp add: js_def ascii_upper_def)
  have "s = (?opn @ ?d) @ (?ws @ drop j (drop 12 s))"
    using s by (simp only: append_take_drop_id)
  then have "s = ?opn @ ?d @ ?ws @ cap @ close @ post"
    unfolding c(1) by simp
  with opn d nonempty ws close c(3) show ?thesis by blast
qed

lemma match_deep_search_sound:
  "match_deep_search g = Some cap \<Longrightarrow>
   \<exists>pre opn d ws close post.
     g = pre @ opn @ d @ ws @ cap @ close @ post
     \<and> map ascii_upper opn = js ''<SEARCH>'' \<and> map ascii_upper d = js ''DEEP''
     \<and> ws \<noteq> [] \<and> (\<forall>c\<in>set ws. is_white_space c)
     \<and> map ascii_upper close = js ''</SEARCH>''
     \<and> (\<forall>c\<in>set cap. \<not> is_line_terminator c)"
proof (induction g)
  case Nil
  then show ?case by simp
next
  case (Cons c cs)
  let ?rest = "drop 12 (c # cs)"
  show ?case
  proof (cases "startsWith_ci (c # cs) (js ''<SEARCH>deep'')
                \<and> spaces_then_capture (js ''</SEARCH>'') (length (takeWhile is_white_space ?rest)) ?rest \<noteq> None")
    case True
    then obtain cap' where
      m: "spaces_then_capture (js ''</SEARCH>'') (length (takeWhile is_white_space ?rest)) ?rest = Some cap'"
      by auto
    with True Cons.prems have "cap' = cap" by (simp add: Let_def)
    with m True deep_search_head_sound [of "c # cs" cap] obtain opn d ws close post where
      "c # cs = [] @ opn @ d @ ws @ cap @ close @ post"
      "map ascii_upper opn = js ''<SEARCH>''" "map ascii_upper d = js ''DEEP''"
      "ws \<noteq> []" "\<forall>c\<in>set ws. is_white_space c" "map ascii_upper close = js ''</SEARCH>''"
      "\<forall>c\<in>set cap. \<not> is_line_terminator c"
      by auto
    then show ?thesis by blast
  next
    case False
    with Cons.prems have "match_deep_search cs = Some cap"
      by (auto simp: Let_def split: if_splits option.splits)
    from Cons.IH [OF this] obtain pre opn d ws close post where
      r: "cs = pre @ opn @ d @ ws @ cap @ close @ post"
      "map ascii_upper opn = js ''<SEARCH>''" "map ascii_upper d = js ''DEEP''"
      "ws \<noteq> []" "\<forall>c\<in>set ws. is_white_space c" "map ascii_upper close = js ''</SEARCH>''"
      "\<forall>c\<in>set cap. \<not> is_line_terminator c"
      by blast
    from r(1) have "c # cs = (c # pre) @ opn @ d @ ws @ cap @ close @ post" by simp
    with r(2-) show ?thesis by blast
  qed
qed


lemmas directive_eval =
  js_def is_white_space_def is_line_terminator_def ascii_upper_def next_directive_def deepMatch_def
  searchMatch_def thinkMatch_def imageMatch_def projectMatch_def canvasMatch_def studyMatch_def
  trim_def Let_def






text \<open>
  Claim C9, as amended. A text that contains a \<open><SEARCH>\<close> tag whose payload begins with
  \<open>deep\<close>, in any case, followed by white space, and has no line terminator after that
  white space, leads to DEEP_SEARCH. When the text has no \<open><DEEP>\<close> tag, this tag is
  the first in the text (no \<open><\<close> before it) and the rest of the payload has no \<open><\<close> and
  does not begin with white space, the next prompt is the payload without the word
  \<open>deep\<close> and the white space after it. Whenever a text without a \<open><DEEP>\<close> tag leads
  to DEEP_SEARCH, the next prompt is what follows \<open>deep\<close> and white space in the payload
  of a \<open><SEARCH>\<close> tag of the text, the tag being matched in any case.
\<close>

theorem search_deep_prefix:
  "(generatedThisLoop = pre @ js ''<SEARCH>'' @ d @ ws @ payload @ js ''</SEARCH>'' @ post
    \<and> map ascii_upper d = js ''DEEP'' \<and> ws \<noteq> [] \<and> (\<forall>c\<in>set ws. is_white_space c)
    \<and> (\<forall>c\<in>set payload. \<not> is_line_terminator c)
    \<longrightarrow> (\<exists>cap. next_directive generatedThisLoop prompt = Some (DEEP_SEARCH, cap))
        \<and> (match_tag (js ''<DEEP>'') (js ''</DEEP>'') generatedThisLoop = None
             \<and> 60 \<notin> set pre \<and> 60 \<notin> set payload \<and> (payload = [] \<or> \<not> is_white_space (hd payload))
           \<longrightarrow> next_directive generatedThisLoop prompt = Some (DEEP_SEARCH, payload)))
   \<and> (match_tag (js ''<DEEP>'') (js ''</DEEP>'') g = None
      \<and> next_directive g prompt = Some (DEEP_SEARCH, stripped)
      \<longrightarrow> (\<exists>before opn word spaces close after.
              g = before @ opn @ word @ spaces @ stripped @ close @ after
              \<and> map ascii_upper opn = js ''<SEARCH>'' \<and> map ascii_upper word = js ''DEEP''
              \<and> spaces \<noteq> [] \<and> (\<forall>c\<in>set spaces. is_white_space c)
              \<and> map ascii_upper close = js ''</SEARCH>''
              \<and> (\<forall>c\<in>set stripped. \<not> is_line_terminator c)))"
proof (intro impI conjI)
  assume h: "generatedThisLoop = pre @ js ''<SEARCH>'' @ d @ ws @ payload @ js ''</SEARCH>'' @ post
   \<and> map ascii_upper d = js ''DEEP'' \<and> ws \<noteq> [] \<and> (\<forall>c\<in>set ws. is_white_space c)
   \<and> (\<forall>c\<in>set payload. \<not> is_line_terminator c)"
  then have "match_deep_search generatedThisLoop \<noteq> None"
    using deep_search_tag_matches [of d ws payload pre post] by simp
  then have "deepMatch generatedThisLoop \<noteq> None"
    by (simp add: deepMatch_def split: option.splits)
  then show "\<exists>cap. next_directive generatedThisLoop prompt = Some (DEEP_SEARCH, cap)"
    by (auto simp: next_directive_def)
  assume e: "match_tag (js ''<DEEP>'') (js ''</DEEP>'') generatedThisLoop = None
            \<and> 60 \<notin> set pre \<and> 60 \<notin> set payload \<and> (payload = [] \<or> \<not> is_white_space (hd payload))"
  with h have "match_deep_search generatedThisLoop = Some payload"
    using deep_search_tag_exact [of d ws payload pre post] by simp
  with e have "deepMatch generatedThisLoop = Some payload"
    by (simp add: deepMatch_def)
  then show "next_directive generatedThisLoop prompt = Some (DEEP_SEARCH, payload)"
    by (simp add: next_directive_def)
next
  assume "match_tag (js ''<DEEP>'') (js ''</DEEP>'') g = None
      \<and> next_directive g prompt = Some (DEEP_SEARCH, stripped)"
  then have "match_deep_search g = Some stripped"
    by (auto simp: next_directive_def deepMatch_def split: option.splits)
  then show "\<exists>before opn word spaces close after.
              g = before @ opn @ word @ spaces @ stripped @ close @ after
              \<and> map ascii_upper opn = js ''<SEARCH>'' \<and> map ascii_upper word = js ''DEEP''
              \<and> spaces \<noteq> [] \<and> (\<forall>c\<in>set spaces. is_white_space c)
              \<and> map ascii_upper close = js ''</SEARCH>''
              \<and> (\<forall>c\<in>set stripped. \<not> is_line_terminator c)"
    by (rule match_deep_search_sound)
qed

theorem search_deep_prefix_witness:
  "next_directive (js ''Let me look. <SEARCH>Deep  rust async runtimes</SEARCH> Done.'') (js ''hello'')
     = Some (DEEP_SEARCH, js ''rust async runtimes'')"
proof -
  have nodeep: "match_tag (js ''<DEEP>'') (js ''</DEEP>'')
                  (js ''Let me look. <SEARCH>Deep  rust async runtimes</SEARCH> Done.'') = None"
    by (simp add: directive_eval)
  have shape: "js ''Let me look. <SEARCH>Deep  rust async runtimes</SEARCH> Done.''
      = js ''Let me look. '' @ js ''<SEARCH>'' @ js ''Deep'' @ js ''  '' @ js ''rust async runtimes''
        @ js ''</SEARCH>'' @ js '' Done.''"
    by (simp add: js_def)
  have side: "map ascii_upper (js ''Deep'') = js ''DEEP''" "js ''  '' \<noteq> []"
    "\<forall>c\<in>set (js ''  ''). is_white_space c"
    "\<forall>c\<in>set (js ''rust async runtimes''). \<not> is_line_terminator c"
    "60 \<notin> set (js ''Let me look. '')" "60 \<notin> set (js ''rust async runtimes'')"
    "\<not> is_white_space (hd (js ''rust async runtimes''))"
    by (simp_all add: js_def ascii_upper_def is_white_space_def is_line_terminator_def)
  show ?thesis
    using search_deep_prefix
      [where generatedThisLoop = "js ''Let me look. <SEARCH>Deep  rust async runtimes</SEARCH> Done.''"
         and pre = "js ''Let me look. ''" and d = "js ''Deep''" and ws = "js ''  ''"
         and payload = "js ''rust async runtimes''" and post = "js '' Done.''" and prompt = "js ''hello''",
       THEN conjunct1]
      nodeep shape side by blast
qed

text \<open>
  Claim C9 as stated fails: a \<open><SEARCH>\<close> tag whose payload begins with \<open>deep\<close> and a
  space, and continues on a second line, matches no pattern: the scan finds no directive,
  neither DEEP_SEARCH nor SEARCH.
\<close>

theorem search_deep_two_lines_counterexample:
  "js ''<SEARCH>deep rust async'' @ [10] @ js ''runtimes</SEARCH>'' =
     [] @ js ''<SEARCH>'' @ js ''deep'' @ js '' '' @ (js ''rust async'' @ [10] @ js ''runtimes'')
     @ js ''</SEARCH>'' @ []
   \<and> map ascii_upper (js ''deep'') = js ''DEEP'' \<and> js '' '' = [32] \<and> is_white_space 32
   \<and> next_directive (js ''<SEARCH>deep rust async'' @ [10] @ js ''runtimes</SEARCH>'') (js ''hello'') = None"
  by (simp add: directive_eval)


section \<open>Properties of the agent loop\<close>

lemma increments_append [simp]: "increments (a @ b) = increments a + increments b"
  by (simp add: increments_def)

lemma increments_Nil [simp]: "increments [] = 0"
  by (simp add: increments_def)

lemma increments_emit [simp]: "increments (emit inp chunk) = 0"
  by (simp add: increments_def emit_def)

lemma increments_emits [simp]: "increments (concat (map (\<lambda>m. emit inp (f m)) ms)) = 0"
  by (induction ms) simp_all

lemma increments_retry_loop:
  "increments (fst (retry_loop call retries (Some (emit inp)) attempt)) = 0"
proof (induction call retries "Some (emit inp)" attempt rule: retry_loop.induct)
  case (1 call retries attempt)
  show ?case
    apply (subst retry_loop.simps)
    using 1
    apply (auto simp: Let_def split_beta split: sum.splits)
    apply (simp add: increments_def)
    done
qed

lemma increments_native_stream [simp]:
  "increments (fst (native_stream env inp loopCount model' p)) = 0"
  by (simp add: native_stream_def generateContentStreamWithRetry_def increments_retry_loop)

lemma consume_chunk_trace:
  "increments (trace (snd (consume_chunk pf inp grounded acc ch))) = increments (trace (snd acc))"
  by (simp add: consume_chunk_def Let_def split: option.splits)

lemma consume_trace:
  "increments (trace (snd (consume pf inp grounded chunks acc))) = increments (trace (snd acc))"
  unfolding consume_def
  by (induction chunks arbitrary: acc) (simp_all add: consume_chunk_trace)

lemma finish_state [simp]: "fst (finish inp s) = s"
  by (simp add: finish_def split: sum.splits)

lemma stream_and_return_trace:
  "increments (fst called) = 0 \<Longrightarrow>
   increments (trace (fst (stream_and_return env inp s called))) = increments (trace s)"
  by (simp add: stream_and_return_def Let_def consume_trace split: sum.splits option.splits)

lemma search_hop_trace:
  "increments (trace (fst (search_hop env inp loopCount s))) = increments (trace s)"
  by (simp add: search_hop_def Let_def split_beta split: sum.splits)

lemma image_hop_trace:
  "increments (trace (fst (image_hop env inp s))) = increments (trace s)"
  by (simp add: image_hop_def image_failed_def Let_def split: sum.splits option.splits)

lemma canvas_hop_trace:
  "increments (trace (fst (canvas_hop env inp s))) = increments (trace s)"
  by (simp add: canvas_hop_def Let_def split: sum.splits list.splits)

lemma project_hop_trace:
  "increments (trace (fst (project_hop env inp model' s))) = increments (trace s)"
  by (simp add: project_hop_def Let_def split: sum.splits)

lemma study_hop_trace:
  "increments (trace (fst (study_hop env inp loopCount model' s))) = increments (trace s)"
  by (simp add: study_hop_def Let_def stream_and_return_trace)

lemma select_generator_trace:
  "increments (fst (select_generator env inp loopCount model' isNative p)) = 0"
  by (simp add: select_generator_def call_streamOpenRouter_def Let_def)

lemma simple_return_trace:
  "increments (trace (fst (simple_return inp s))) = increments (trace s)"
  by (simp add: simple_return_def)

lemma simple_hop_trace:
  "increments (trace (fst (simple_hop env inp loopCount model' isNative prompt s))) = increments (trace s)"
  by (simp add: simple_hop_def Let_def consume_trace select_generator_trace simple_return_trace
        split: option.splits sum.splits prod.splits)

lemma think_hop_trace:
  "increments (trace (fst (think_hop env inp loopCount model' s))) =
     increments (trace s) + (if qualifies_for_thinking model' then 1 else 0)"
  by (simp add: think_hop_def Let_def stream_and_return_trace qualifies_for_thinking_def
        split: option.splits)
     (simp add: increments_def)

lemma hop_trace:
  "increments (trace (fst (hop env inp model' isNative prompt loopCount s))) =
     increments (trace s) + (if currentAction s = THINK \<and> qualifies_for_thinking model' then 1 else 0)"
  by (cases "currentAction s")
     (simp_all add: hop_def search_hop_trace think_hop_trace image_hop_trace canvas_hop_trace
        project_hop_trace study_hop_trace simple_hop_trace)

lemma run_loop_step:
  "loopCount < MAX_LOOPS \<Longrightarrow>
   run_loop env inp model' isNative prompt loopCount s =
     (let stepped = hop env inp model' isNative prompt (loopCount + 1) s
      in case snd stepped of
           Continue \<Rightarrow>
             ((loopCount + 1, stepped) # fst (run_loop env inp model' isNative prompt (loopCount + 1) (fst stepped)),
              snd (run_loop env inp model' isNative prompt (loopCount + 1) (fst stepped)))
         | Return m \<Rightarrow> ([(loopCount + 1, stepped)], fst stepped, Inr m)
         | Throw e \<Rightarrow> ([(loopCount + 1, stepped)], fst stepped, Inl e))"
  by (subst run_loop.simps) (simp add: Let_def split: control.splits)

lemma run_loop_stop:
  "\<not> loopCount < MAX_LOOPS \<Longrightarrow>
   run_loop env inp model' isNative prompt loopCount s =
     ([], s, make_message inp (finalResponseText s) None (metadataPayload s))"
  by (subst run_loop.simps) simp

lemma run_loop_length:
  "length (fst (run_loop env inp model' isNative prompt loopCount s)) \<le> MAX_LOOPS - loopCount"
proof (induction env inp model' isNative prompt loopCount s rule: run_loop.induct)
  case (1 env inp model' isNative prompt loopCount s)
  show ?case
  proof (cases "loopCount < MAX_LOOPS")
    case False
    then show ?thesis by (simp add: run_loop_stop)
  next
    case True
    show ?thesis
    proof (cases "snd (hop env inp model' isNative prompt (loopCount + 1) s)")
      case Continue
      with True 1 [OF True refl Continue] show ?thesis
        by (simp add: run_loop_step Let_def)
    next
      case (Return m)
      with True show ?thesis by (simp add: run_loop_step Let_def)
    next
      case (Throw e)
      with True show ?thesis by (simp add: run_loop_step Let_def)
    qed
  qed
qed

lemma run_loop_counts:
  "map fst (fst (run_loop env inp model' isNative prompt loopCount s)) =
     [Suc loopCount..<Suc loopCount + length (fst (run_loop env inp model' isNative prompt loopCount s))]"
proof (induction env inp model' isNative prompt loopCount s rule: run_loop.induct)
  case (1 env inp model' isNative prompt loopCount s)
  show ?case
  proof (cases "loopCount < MAX_LOOPS")
    case False
    then show ?thesis by (simp add: run_loop_stop)
  next
    case True
    show ?thesis
    proof (cases "snd (hop env inp model' isNative prompt (loopCount + 1) s)")
      case Continue
      let ?rest = "fst (run_loop env inp model' isNative prompt (loopCount + 1)
                          (fst (hop env inp model' isNative prompt (loopCount + 1) s)))"
      have ih: "map fst ?rest = [Suc (loopCount + 1)..<Suc (loopCount + 1) + length ?rest]"
        by (rule 1 [OF True refl Continue])
      have unfold: "fst (run_loop env inp model' isNative prompt loopCount s) =
                      (loopCount + 1, hop env inp model' isNative prompt (loopCount + 1) s) # ?rest"
        using True Continue by (simp add: run_loop_step Let_def)
      have "[Suc loopCount..<Suc loopCount + Suc (length ?rest)] =
              Suc loopCount # [Suc (Suc loopCount)..<Suc loopCount + Suc (length ?rest)]"
        by (rule upt_conv_Cons) simp
      then show ?thesis
        unfolding unfold using ih by simp
    next
      case (Return m)
      with True show ?thesis by (simp add: run_loop_step Let_def)
    next
      case (Throw e)
      with True show ?thesis by (simp add: run_loop_step Let_def)
    qed
  qed
qed

lemma run_loop_all_continue:
  "\<forall>it\<in>set (fst (run_loop env inp model' isNative prompt loopCount s)). snd (snd it) = Continue \<Longrightarrow>
   loopCount \<le> MAX_LOOPS \<Longrightarrow>
   loopCount + length (fst (run_loop env inp model' isNative prompt loopCount s)) = MAX_LOOPS
   \<and> fst (snd (run_loop env inp model' isNative prompt loopCount s)) =
       (if fst (run_loop env inp model' isNative prompt loopCount s) = [] then s
        else fst (snd (last (fst (run_loop env inp model' isNative prompt loopCount s)))))
   \<and> snd (snd (run_loop env inp model' isNative prompt loopCount s)) =
       make_message inp (finalResponseText (fst (snd (run_loop env inp model' isNative prompt loopCount s))))
         None (metadataPayload (fst (snd (run_loop env inp model' isNative prompt loopCount s))))"
proof (induction env inp model' isNative prompt loopCount s rule: run_loop.induct)
  case (1 env inp model' isNative prompt loopCount s)
  show ?case
  proof (cases "loopCount < MAX_LOOPS")
    case False
    with "1.prems" show ?thesis by (simp add: run_loop_stop)
  next
    case True
    show ?thesis
    proof (cases "snd (hop env inp model' isNative prompt (loopCount + 1) s)")
      case Continue
      have all: "\<forall>it\<in>set (fst (run_loop env inp model' isNative prompt (loopCount + 1)
                    (fst (hop env inp model' isNative prompt (loopCount + 1) s)))). snd (snd it) = Continue"
        using "1.prems"(1) True Continue by (simp add: run_loop_step Let_def)
      have le: "loopCount + 1 \<le> MAX_LOOPS" using True by simp
      note ih = "1.IH" [OF True refl Continue all le]
      show ?thesis
        using True Continue ih by (simp add: run_loop_step Let_def)
    next
      case (Return m)
      with True "1.prems" show ?thesis by (simp add: run_loop_step Let_def)
    next
      case (Throw e)
      with True "1.prems" show ?thesis by (simp add: run_loop_step Let_def)
    qed
  qed
qed

lemma run_loop_increments:
  "\<not> qualifies_for_thinking model' \<Longrightarrow>
   increments (trace (fst (snd (run_loop env inp model' isNative prompt loopCount s)))) = increments (trace s)"
proof (induction env inp model' isNative prompt loopCount s rule: run_loop.induct)
  case (1 env inp model' isNative prompt loopCount s)
  show ?case
  proof (cases "loopCount < MAX_LOOPS")
    case False
    then show ?thesis by (simp add: run_loop_stop)
  next
    case True
    have h: "increments (trace (fst (hop env inp model' isNative prompt (loopCount + 1) s))) = increments (trace s)"
      using "1.prems" by (simp add: hop_trace)
    show ?thesis
    proof (cases "snd (hop env inp model' isNative prompt (loopCount + 1) s)")
      case Continue
      with True "1.IH" [OF True refl Continue "1.prems"] h show ?thesis
        by (simp add: run_loop_step Let_def)
    next
      case (Return m)
      with True h show ?thesis by (simp add: run_loop_step Let_def)
    next
      case (Throw e)
      with True h show ?thesis by (simp add: run_loop_step Let_def)
    qed
  qed
qed

text \<open>
  Claim C1. The loop started with \<open>loopCount = 0\<close> runs at most 6 iterations, whatever the
  environment, the input and the starting state; its iterations are numbered 1, 2, ... in
  order, one more each time. When every iteration that runs ends in \<open>continue\<close>, there
  are exactly 6 of them, and the loop then returns the message built from the response
  text and the payload accumulated in the state after hop 6.
\<close>

theorem hop_budget:
  "length (fst (run_loop env inp model' isNative prompt 0 s)) \<le> 6
   \<and> map fst (fst (run_loop env inp model' isNative prompt 0 s)) =
       [1..<Suc (length (fst (run_loop env inp model' isNative prompt 0 s)))]
   \<and> ((\<forall>it\<in>set (fst (run_loop env inp model' isNative prompt 0 s)). snd (snd it) = Continue) \<longrightarrow>
        length (fst (run_loop env inp model' isNative prompt 0 s)) = 6
        \<and> fst (snd (run_loop env inp model' isNative prompt 0 s)) =
            fst (snd (last (fst (run_loop env inp model' isNative prompt 0 s))))
        \<and> snd (snd (run_loop env inp model' isNative prompt 0 s)) =
            make_message inp (finalResponseText (fst (snd (run_loop env inp model' isNative prompt 0 s))))
              None (metadataPayload (fst (snd (run_loop env inp model' isNative prompt 0 s)))))"
proof (intro conjI impI)
  show "length (fst (run_loop env inp model' isNative prompt 0 s)) \<le> 6"
    using run_loop_length [of env inp model' isNative prompt 0 s] by (simp add: MAX_LOOPS_def)
  show "map fst (fst (run_loop env inp model' isNative prompt 0 s)) =
       [1..<Suc (length (fst (run_loop env inp model' isNative prompt 0 s)))]"
    using run_loop_counts [of env inp model' isNative prompt 0 s] by simp
next
  assume all: "\<forall>it\<in>set (fst (run_loop env inp model' isNative prompt 0 s)). snd (snd it) = Continue"
  note r = run_loop_all_continue [OF all, simplified]
  show len: "length (fst (run_loop env inp model' isNative prompt 0 s)) = 6"
    using r by (simp add: MAX_LOOPS_def)
  then have "fst (run_loop env inp model' isNative prompt 0 s) \<noteq> []" by auto
  then show "fst (snd (run_loop env inp model' isNative prompt 0 s)) =
            fst (snd (last (fst (run_loop env inp model' isNative prompt 0 s))))"
    using r by simp
  show "snd (snd (run_loop env inp model' isNative prompt 0 s)) =
            make_message inp (finalResponseText (fst (snd (run_loop env inp model' isNative prompt 0 s))))
              None (metadataPayload (fst (snd (run_loop env inp model' isNative prompt 0 s))))"
    using r by simp
qed

text \<open>
  Claim C8. A hop whose action is THINK, for a model that is not a native model
  containing \<open>gemini-2.5\<close>, only sets the action to SIMPLE and continues: prompt, text,
  payload and trace are unchanged, so \<open>incrementThinkingCount\<close> is not called. In any
  hop the number of calls of \<open>incrementThinkingCount\<close> grows, by one, exactly when the
  action is THINK and the model qualifies; for a model that does not qualify no run of
  the loop calls it.
\<close>

theorem think_downgrade:
  "(currentAction s = THINK \<and> \<not> (isGoogleModel model' \<and> str_includes model' (js ''gemini-2.5''))
      \<longrightarrow> hop env inp model' isNative prompt loopCount s = (s\<lparr>currentAction := SIMPLE\<rparr>, Continue))
   \<and> increments (trace (fst (hop env inp model' isNative prompt loopCount s))) =
       increments (trace s)
       + (if currentAction s = THINK \<and> isGoogleModel model' \<and> str_includes model' (js ''gemini-2.5'')
          then 1 else 0)
   \<and> (\<not> (isGoogleModel model' \<and> str_includes model' (js ''gemini-2.5''))
      \<longrightarrow> increments (trace (fst (snd (run_loop env inp model' isNative prompt loopCount s))))
           = increments (trace s))"
proof (intro conjI impI)
  assume "currentAction s = THINK \<and> \<not> (isGoogleModel model' \<and> str_includes model' (js ''gemini-2.5''))"
  then show "hop env inp model' isNative prompt loopCount s = (s\<lparr>currentAction := SIMPLE\<rparr>, Continue)"
    by (auto simp: hop_def think_hop_def)
next
  show "increments (trace (fst (hop env inp model' isNative prompt loopCount s))) =
       increments (trace s)
       + (if currentAction s = THINK \<and> isGoogleModel model' \<and> str_includes model' (js ''gemini-2.5'')
          then 1 else 0)"
    using hop_trace [of env inp model' isNative prompt loopCount s]
    by (simp add: qualifies_for_thinking_def)
next
  assume "\<not> (isGoogleModel model' \<and> str_includes model' (js ''gemini-2.5''))"
  then show "increments (trace (fst (snd (run_loop env inp model' isNative prompt loopCount s))))
           = increments (trace s)"
    by (intro run_loop_increments) (simp add: qualifies_for_thinking_def)
qed

lemma make_message_present:
  "in_project inp = Some pid \<Longrightarrow> in_chat inp = Some cid \<Longrightarrow>
   make_message inp txt img metadata =
     Inr \<lparr>project_id = pid, chat_id = cid, sender = js ''ai'', msg_text = txt,
          image_base64 = img, groundingMetadata = metadata\<rparr>"
  by (simp add: make_message_def)













text \<open>The chosen message of the outer \<open>catch\<close> block, by the kind of the thrown value.\<close>

lemma chosen_message_string:
  "chosen_message env (JsError isError status (Some (JString body))) =
     (if str_includes body (js ''OpenRouter'') then Inr body
      else getUserFriendlyError env (JsError isError status (Some (JString body))))"
  by (cases "body = []")
     (simp_all add: chosen_message_def message_includes_def call_includes_def template_text_def
        to_text_def js_def)

lemma chosen_message_absent:
  "chosen_message env (JsError isError status None) = getUserFriendlyError env (JsError isError status None)"
  by (simp add: chosen_message_def message_includes_def call_includes_def)





text \<open>
  Claim C10. When the loop ends with a thrown value, in a state \<open>s'\<close> that holds the
  response text and the grounding metadata accumulated so far, and the \<open>catch\<close> block
  finds the message of that value, \<open>runAutonomousAgent\<close> returns what was streamed
  together with a single message whose text is exactly \<open>An error occurred: \<close> followed by
  the chosen error message, without an image and without grounding metadata: nothing of
  \<open>finalResponseText s'\<close> and \<open>metadataPayload s'\<close> enters it. The message has the same
  form when the value is thrown before the loop starts. The chosen message of a thrown
  object whose \<open>message\<close> is a string is that string when it contains \<open>OpenRouter\<close> and
  the result of \<open>getUserFriendlyError\<close> otherwise.
\<close>

theorem fatal_message_only_reports_error:
  "(in_project inp = Some pid \<and> in_chat inp = Some cid
    \<and> agent_setup env inp (effective_model inp) = (effs0, Inr (model', isNative, prompt, s0))
    \<and> snd (run_loop env inp model' isNative prompt 0 s0) = (s', Inl error)
    \<and> chosen_message env error = Inr errorMessage
    \<longrightarrow> runAutonomousAgent env inp =
          (trace s',
           Inr [\<lparr>project_id = pid, chat_id = cid, sender = js ''ai'',
                 msg_text = js ''An error occurred: '' @ errorMessage,
                 image_base64 = None, groundingMetadata = None\<rparr>]))
   \<and> (in_project inp = Some pid \<and> in_chat inp = Some cid
    \<and> agent_setup env inp (effective_model inp) = (effs1, Inl error1)
    \<and> chosen_message env error1 = Inr errorMessage1
    \<longrightarrow> runAutonomousAgent env inp =
          (effs1,
           Inr [\<lparr>project_id = pid, chat_id = cid, sender = js ''ai'',
                 msg_text = js ''An error occurred: '' @ errorMessage1,
                 image_base64 = None, groundingMetadata = None\<rparr>]))
   \<and> chosen_message env (JsError isError status (Some (JString body))) =
       (if str_includes body (js ''OpenRouter'') then Inr body
        else getUserFriendlyError env (JsError isError status (Some (JString body))))
   \<and> chosen_message env (JsError isError status None) =
       getUserFriendlyError env (JsError isError status None)"
  by (auto simp: runAutonomousAgent_def agent_try_def Let_def make_message_present
        chosen_message_string chosen_message_absent)

lemma run_loop_Continue:
  "loopCount < MAX_LOOPS \<Longrightarrow> hopNumber = loopCount + 1 \<Longrightarrow>
   hop env inp model' isNative prompt hopNumber s = (s', Continue) \<Longrightarrow>
   run_loop env inp model' isNative prompt loopCount s =
     ((hopNumber, s', Continue) # fst (run_loop env inp model' isNative prompt hopNumber s'),
      snd (run_loop env inp model' isNative prompt hopNumber s'))"
  by (simp add: run_loop_step)

lemma run_loop_Throw:
  "loopCount < MAX_LOOPS \<Longrightarrow> hopNumber = loopCount + 1 \<Longrightarrow>
   hop env inp model' isNative prompt hopNumber s = (s', Throw e) \<Longrightarrow>
   run_loop env inp model' isNative prompt loopCount s = ([(hopNumber, s', Throw e)], s', Inl e)"
  by (simp add: run_loop_step)


lemma native_stream_first_try:
  "generateContentStream env loopCount model' p 0 = Inr g \<Longrightarrow>
   native_stream env inp loopCount model' p = ([], Inr g)"
  by (simp add: native_stream_def generateContentStreamWithRetry_def retry_loop_success)

lemma old_model: "isGoogleModel (js ''gemini-1.5-pro'')" "\<not> str_includes (js ''gemini-1.5-pro'') (js ''gemini-2.5'')"
  by (simp_all add: isGoogleModel_def js_def)

lemma think_tag_nonempty: "js ''<THINK>'' \<noteq> []"
  by (simp add: js_def)

lemma think_tag_directive: "next_directive (js ''<THINK>'') p = Some (THINK, p)"
  by (simp add: directive_eval)

lemma think_loop_THINK_hop:
  "hop think_loop_environment think_loop_input (js ''gemini-1.5-pro'') True (js ''Think it over'') n
     (think_loop_state THINK body streamed) = (think_loop_state SIMPLE body streamed, Continue)"
  by (simp add: hop_def think_hop_def think_loop_state_def old_model)

lemma think_loop_stream:
  "native_stream think_loop_environment think_loop_input n m p = ([], Inr ([(Some (js ''<THINK>''), None)], None))"
  by (rule native_stream_first_try) (simp add: think_loop_environment_def)

lemma think_loop_input_fields:
  "in_files think_loop_input = []" "in_onStreamChunk think_loop_input"
  "in_project think_loop_input = Some (js ''project-1'')" "in_chat think_loop_input = Some (js ''chat-1'')"
  by (simp_all add: think_loop_input_def)

lemma think_loop_SIMPLE_hop:
  "hop think_loop_environment think_loop_input (js ''gemini-1.5-pro'') True (js ''Think it over'') n
     (think_loop_state SIMPLE body streamed) =
     (think_loop_state THINK (body @ js ''<THINK>'') (streamed @ [Emit (js ''<THINK>'')]), Continue)"
  by (simp add: hop_def simple_hop_def select_generator_def think_loop_stream consume_def
        consume_chunk_def chunk_truthy_def chunk_text_def chunk_grounding_def emit_def
        think_tag_nonempty think_tag_directive think_loop_state_def think_loop_input_fields Let_def)

lemma think_loop_run:
  "fst (run_loop think_loop_environment think_loop_input (js ''gemini-1.5-pro'') True (js ''Think it over'') 0
         (think_loop_state THINK [] [])) = think_loop_iterations"
proof -
  let ?run = "run_loop think_loop_environment think_loop_input (js ''gemini-1.5-pro'') True (js ''Think it over'')"
  have r6: "fst (?run 6 (think_loop_state THINK (js ''<THINK>'' @ js ''<THINK>'' @ js ''<THINK>'')
            [Emit (js ''<THINK>''), Emit (js ''<THINK>''), Emit (js ''<THINK>'')])) = []"
    by (simp add: run_loop_stop MAX_LOOPS_def)
  have r5: "fst (?run 5 (think_loop_state SIMPLE (js ''<THINK>'' @ js ''<THINK>'')
            [Emit (js ''<THINK>''), Emit (js ''<THINK>'')])) = drop 5 think_loop_iterations"
    by (subst run_loop_Continue [where loopCount = 5 and hopNumber = 6,
        OF _ _ think_loop_SIMPLE_hop [where body = "js ''<THINK>'' @ js ''<THINK>''" and streamed = "[Emit (js ''<THINK>''), Emit (js ''<THINK>'')]"]])
       (simp_all add: MAX_LOOPS_def think_loop_iterations_def r6)
  have r4: "fst (?run 4 (think_loop_state THINK (js ''<THINK>'' @ js ''<THINK>'')
            [Emit (js ''<THINK>''), Emit (js ''<THINK>'')])) = drop 4 think_loop_iterations"
    by (subst run_loop_Continue [where loopCount = 4 and hopNumber = 5,
        OF _ _ think_loop_THINK_hop [where body = "js ''<THINK>'' @ js ''<THINK>''" and streamed = "[Emit (js ''<THINK>''), Emit (js ''<THINK>'')]"]])
       (simp_all add: MAX_LOOPS_def think_loop_iterations_def r5)
  have r3: "fst (?run 3 (think_loop_state SIMPLE (js ''<THINK>'') [Emit (js ''<THINK>'')]))
              = drop 3 think_loop_iterations"
    by (subst run_loop_Continue [where loopCount = 3 and hopNumber = 4,
        OF _ _ think_loop_SIMPLE_hop [where body = "js ''<THINK>''" and streamed = "[Emit (js ''<THINK>'')]"]])
       (simp_all add: MAX_LOOPS_def think_loop_iterations_def r4)
  have r2: "fst (?run 2 (think_loop_state THINK (js ''<THINK>'') [Emit (js ''<THINK>'')]))
              = drop 2 think_loop_iterations"
    by (subst run_loop_Continue [where loopCount = 2 and hopNumber = 3,
        OF _ _ think_loop_THINK_hop [where body = "js ''<THINK>''" and streamed = "[Emit (js ''<THINK>'')]"]])
       (simp_all add: MAX_LOOPS_def think_loop_iterations_def r3)
  have r1: "fst (?run (Suc 0) (think_loop_state SIMPLE [] [])) = drop 1 think_loop_iterations"
    by (subst run_loop_Continue [where loopCount = "Suc 0" and hopNumber = 2,
        OF _ _ think_loop_SIMPLE_hop [where body = "[]" and streamed = "[]"]])
       (simp_all add: MAX_LOOPS_def think_loop_iterations_def r2)
  show ?thesis
    by (subst run_loop_Continue [where loopCount = 0 and hopNumber = "Suc 0",
        OF _ _ think_loop_THINK_hop [where body = "[]" and streamed = "[]"]])
       (simp_all add: MAX_LOOPS_def think_loop_iterations_def r1)
qed

theorem hop_budget_witness:
  "length (fst (run_loop think_loop_environment think_loop_input (js ''gemini-1.5-pro'') True
                  (js ''Think it over'') 0 (think_loop_state THINK [] []))) = 6
   \<and> map fst (fst (run_loop think_loop_environment think_loop_input (js ''gemini-1.5-pro'') True
                  (js ''Think it over'') 0 (think_loop_state THINK [] []))) = [1, 2, 3, 4, 5, 6]
   \<and> snd (snd (run_loop think_loop_environment think_loop_input (js ''gemini-1.5-pro'') True
                  (js ''Think it over'') 0 (think_loop_state THINK [] []))) =
       Inr \<lparr>project_id = js ''project-1'', chat_id = js ''chat-1'', sender = js ''ai'',
            msg_text = js ''<THINK>'' @ js ''<THINK>'' @ js ''<THINK>'',
            image_base64 = None, groundingMetadata = None\<rparr>"
proof -
  let ?r = "run_loop think_loop_environment think_loop_input (js ''gemini-1.5-pro'') True
              (js ''Think it over'') 0 (think_loop_state THINK [] [])"
  have all: "\<forall>it\<in>set (fst ?r). snd (snd it) = Continue"
    by (simp add: think_loop_run think_loop_iterations_def)
  note inst = hop_budget [of think_loop_environment think_loop_input "js ''gemini-1.5-pro''" True
      "js ''Think it over''" "think_loop_state THINK [] []"]
  note concl = inst [THEN conjunct2, THEN conjunct2, THEN mp, OF all]
  have final: "fst (snd ?r) = fst (snd (last (fst ?r)))"
    by (rule concl [THEN conjunct2, THEN conjunct1])
  have out: "snd (snd ?r) = make_message think_loop_input (finalResponseText (fst (snd ?r))) None
                (metadataPayload (fst (snd ?r)))"
    by (rule concl [THEN conjunct2, THEN conjunct2])
  have state: "fst (snd ?r) = think_loop_state THINK (js ''<THINK>'' @ js ''<THINK>'' @ js ''<THINK>'')
            [Emit (js ''<THINK>''), Emit (js ''<THINK>''), Emit (js ''<THINK>'')]"
    unfolding final by (simp add: think_loop_run think_loop_iterations_def)
  have msg: "snd (snd ?r) = Inr \<lparr>project_id = js ''project-1'', chat_id = js ''chat-1'', sender = js ''ai'',
            msg_text = js ''<THINK>'' @ js ''<THINK>'' @ js ''<THINK>'',
            image_base64 = None, groundingMetadata = None\<rparr>"
    unfolding out state
    by (simp add: think_loop_state_def make_message_def think_loop_input_fields)
  show ?thesis
    using msg by (simp add: think_loop_run think_loop_iterations_def)
qed

theorem think_downgrade_witness:
  "hop think_loop_environment think_loop_input (js ''gemini-1.5-pro'') True (js ''Think it over'') 1
     (think_loop_state THINK [] []) = ((think_loop_state THINK [] [])\<lparr>currentAction := SIMPLE\<rparr>, Continue)
   \<and> increments (trace (fst (snd (run_loop think_loop_environment think_loop_input (js ''gemini-1.5-pro'')
         True (js ''Think it over'') 0 (think_loop_state THINK [] []))))) = 0"
proof -
  note inst = think_downgrade [of "think_loop_state THINK [] []" "js ''gemini-1.5-pro''"
      think_loop_environment think_loop_input True "js ''Think it over''"]
  have a: "currentAction (think_loop_state THINK [] []) = THINK" by (simp add: think_loop_state_def)
  have t: "increments (trace (think_loop_state THINK [] [])) = 0" by (simp add: think_loop_state_def)
  have first: "hop think_loop_environment think_loop_input (js ''gemini-1.5-pro'') True (js ''Think it over'') 1
     (think_loop_state THINK [] []) = ((think_loop_state THINK [] [])\<lparr>currentAction := SIMPLE\<rparr>, Continue)"
    using inst [of 1, THEN conjunct1] a old_model by simp
  have second: "increments (trace (fst (snd (run_loop think_loop_environment think_loop_input (js ''gemini-1.5-pro'')
         True (js ''Think it over'') 0 (think_loop_state THINK [] []))))) = 0"
    using inst [of 0, THEN conjunct2, THEN conjunct2] t old_model by simp
  show ?thesis
    using first second by (intro conjI)
qed

lemma plain_input_fields:
  "in_files plain_input = []" "in_onStreamChunk plain_input"
  "in_project plain_input = Some (js ''project-1'')" "in_chat plain_input = Some (js ''chat-1'')"
  "in_prompt plain_input = js ''weather in Paris''" "in_model plain_input = None"
  by (simp_all add: plain_input_def)

lemma default_model_native: "isGoogleModel default_model"
  by (simp add: isGoogleModel_def default_model_def js_def)

lemma plain_input_model: "effective_model plain_input = default_model"
  by (simp add: effective_model_def plain_input_fields)


lemma service_unavailable_message:
  "chosen_message failing_router_environment
     (JsError False (Some 503) (Some (JString (js ''Service unavailable'')))) =
   Inr (js ''Something went wrong. Please try again.'')"
  by (simp add: chosen_message_string failing_router_environment_def quiet_environment_def)
     (simp add: js_def)






lemma interrupted_setup:
  "agent_setup interrupted_environment plain_input default_model =
     ([], Inr (default_model, True, js ''weather in Paris'', interrupted_start))"
  by (simp add: agent_setup_def default_model_native interrupted_environment_def quiet_environment_def
        plain_input_fields interrupted_start_def Let_def)

lemma interrupted_hop1:
  "hop interrupted_environment plain_input default_model True (js ''weather in Paris'') (Suc 0) interrupted_start =
     (interrupted_state SIMPLE (synthesisPrompt (js ''weather in Paris'') (js ''Paris is sunny.'')) []
        (take 2 interrupted_trace), Continue)"
  by (simp add: hop_def search_hop_def interrupted_start_def interrupted_state_def interrupted_trace_def
        emit_def plain_input_fields Let_def)
     (simp add: interrupted_environment_def)

lemma checking_nonempty: "js ''Checking. <SEARCH>paris tomorrow</SEARCH>'' \<noteq> []"
  by (simp add: js_def)

lemma checking_directive:
  "next_directive (js ''Checking. <SEARCH>paris tomorrow</SEARCH>'') p = Some (SEARCH, js ''paris tomorrow'')"
  by (simp add: directive_eval)

lemma interrupted_stream:
  "native_stream interrupted_environment plain_input n m p =
     ([], Inr ([(Some (js ''Checking. <SEARCH>paris tomorrow</SEARCH>''), None)], None))"
  by (rule native_stream_first_try) (simp add: interrupted_environment_def)

lemma interrupted_hop2:
  "hop interrupted_environment plain_input default_model True (js ''weather in Paris'') 2
     (interrupted_state SIMPLE p [] (take 2 interrupted_trace)) =
     (interrupted_state SEARCH (js ''paris tomorrow'') (js ''Checking. <SEARCH>paris tomorrow</SEARCH>'')
        (take 3 interrupted_trace), Continue)"
  by (simp add: hop_def simple_hop_def select_generator_def interrupted_stream consume_def
        consume_chunk_def chunk_truthy_def chunk_text_def chunk_grounding_def emit_def
        checking_nonempty checking_directive interrupted_state_def interrupted_trace_def
        plain_input_fields Let_def)

lemma interrupted_hop3:
  "hop interrupted_environment plain_input default_model True (js ''weather in Paris'') 3
     (interrupted_state SEARCH (js ''paris tomorrow'') (js ''Checking. <SEARCH>paris tomorrow</SEARCH>'')
        (take 3 interrupted_trace)) =
     (interrupted_state SEARCH (js ''paris tomorrow'') (js ''Checking. <SEARCH>paris tomorrow</SEARCH>'')
        interrupted_trace, Throw (new_Error (js ''Failed to fetch'')))"
  by (simp add: hop_def search_hop_def interrupted_state_def interrupted_trace_def
        emit_def plain_input_fields Let_def)
     (simp add: interrupted_environment_def)

lemma interrupted_run:
  "snd (run_loop interrupted_environment plain_input default_model True (js ''weather in Paris'') 0
          interrupted_start) =
     (interrupted_state SEARCH (js ''paris tomorrow'') (js ''Checking. <SEARCH>paris tomorrow</SEARCH>'')
        interrupted_trace, Inl (new_Error (js ''Failed to fetch'')))"
proof -
  let ?run = "run_loop interrupted_environment plain_input default_model True (js ''weather in Paris'')"
  have r2: "snd (?run 2 (interrupted_state SEARCH (js ''paris tomorrow'')
                  (js ''Checking. <SEARCH>paris tomorrow</SEARCH>'') (take 3 interrupted_trace))) =
     (interrupted_state SEARCH (js ''paris tomorrow'') (js ''Checking. <SEARCH>paris tomorrow</SEARCH>'')
        interrupted_trace, Inl (new_Error (js ''Failed to fetch'')))"
    by (subst run_loop_Throw [where loopCount = 2 and hopNumber = 3, OF _ _ interrupted_hop3])
       (simp_all add: MAX_LOOPS_def)
  have r1: "snd (?run (Suc 0) (interrupted_state SIMPLE
                  (synthesisPrompt (js ''weather in Paris'') (js ''Paris is sunny.'')) []
                  (take 2 interrupted_trace))) =
     (interrupted_state SEARCH (js ''paris tomorrow'') (js ''Checking. <SEARCH>paris tomorrow</SEARCH>'')
        interrupted_trace, Inl (new_Error (js ''Failed to fetch'')))"
    by (subst run_loop_Continue [where loopCount = "Suc 0" and hopNumber = 2, OF _ _ interrupted_hop2])
       (simp_all add: MAX_LOOPS_def r2)
  show ?thesis
    by (subst run_loop_Continue [where loopCount = 0 and hopNumber = "Suc 0", OF _ _ interrupted_hop1])
       (simp_all add: MAX_LOOPS_def r1)
qed

lemma failed_fetch_message:
  "chosen_message interrupted_environment (new_Error (js ''Failed to fetch'')) =
   Inr (js ''Something went wrong. Please try again.'')"
  by (simp add: new_Error_def chosen_message_string interrupted_environment_def quiet_environment_def)
     (simp add: js_def)

theorem fatal_message_only_reports_error_witness:
  "finalResponseText (fst (snd (run_loop interrupted_environment plain_input default_model True
       (js ''weather in Paris'') 0 interrupted_start))) = js ''Checking. <SEARCH>paris tomorrow</SEARCH>''
   \<and> metadataPayload (fst (snd (run_loop interrupted_environment plain_input default_model True
       (js ''weather in Paris'') 0 interrupted_start)))
       = Some [source_metadata interrupted_environment (js ''https://www.meteo.example/paris'')]
   \<and> runAutonomousAgent interrupted_environment plain_input =
       ([Emit searching_notice, Emit (js ''\<newline>*'' @ js ''Reading forecasts'' @ js ''*''),
         Emit (js ''Checking. <SEARCH>paris tomorrow</SEARCH>''), Emit searching_notice],
        Inr [\<lparr>project_id = js ''project-1'', chat_id = js ''chat-1'', sender = js ''ai'',
              msg_text = js ''An error occurred: '' @ js ''Something went wrong. Please try again.'',
              image_base64 = None, groundingMetadata = None\<rparr>])
   \<and> runAutonomousAgent failing_router_environment plain_input =
       ([],
        Inr [\<lparr>project_id = js ''project-1'', chat_id = js ''chat-1'', sender = js ''ai'',
              msg_text = js ''An error occurred: '' @ js ''Something went wrong. Please try again.'',
              image_base64 = None, groundingMetadata = None\<rparr>])"
proof -
  note inst = fatal_message_only_reports_error
    [where inp = plain_input and pid = "js ''project-1''" and cid = "js ''chat-1''"
       and env = interrupted_environment and ?effs0.0 = "[]" and model' = default_model
       and isNative = True and prompt = "js ''weather in Paris''" and ?s0.0 = interrupted_start
       and s' = "interrupted_state SEARCH (js ''paris tomorrow'')
                   (js ''Checking. <SEARCH>paris tomorrow</SEARCH>'') interrupted_trace"
       and error = "new_Error (js ''Failed to fetch'')"
       and errorMessage = "js ''Something went wrong. Please try again.''"]
  have hyps: "in_project plain_input = Some (js ''project-1'') \<and> in_chat plain_input = Some (js ''chat-1'')
     \<and> agent_setup interrupted_environment plain_input (effective_model plain_input) =
         ([], Inr (default_model, True, js ''weather in Paris'', interrupted_start))
     \<and> snd (run_loop interrupted_environment plain_input default_model True (js ''weather in Paris'') 0
              interrupted_start) =
         (interrupted_state SEARCH (js ''paris tomorrow'') (js ''Checking. <SEARCH>paris tomorrow</SEARCH>'')
            interrupted_trace, Inl (new_Error (js ''Failed to fetch'')))
     \<and> chosen_message interrupted_environment (new_Error (js ''Failed to fetch'')) =
         Inr (js ''Something went wrong. Please try again.'')"
    by (simp add: plain_input_fields plain_input_model interrupted_setup interrupted_run
          failed_fetch_message)
  note concl = inst [THEN conjunct1, THEN mp, OF hyps]
  have result: "runAutonomousAgent interrupted_environment plain_input =
       (interrupted_trace,
        Inr [\<lparr>project_id = js ''project-1'', chat_id = js ''chat-1'', sender = js ''ai'',
              msg_text = js ''An error occurred: '' @ js ''Something went wrong. Please try again.'',
              image_base64 = None, groundingMetadata = None\<rparr>])"
    using concl by (simp add: interrupted_state_def)
  note inst1 = fatal_message_only_reports_error
    [where inp = plain_input and pid = "js ''project-1''" and cid = "js ''chat-1''"
       and env = failing_router_environment and ?effs1.0 = "[]"
       and ?error1.0 = "JsError False (Some 503) (Some (JString (js ''Service unavailable'')))"
       and ?errorMessage1.0 = "js ''Something went wrong. Please try again.''"]
  have early_setup: "agent_setup failing_router_environment plain_input default_model =
      ([], Inl (JsError False (Some 503) (Some (JString (js ''Service unavailable'')))))"
    by (simp add: agent_setup_def default_model_native failing_router_environment_def
          quiet_environment_def Let_def)
  have hyps1: "in_project plain_input = Some (js ''project-1'') \<and> in_chat plain_input = Some (js ''chat-1'')
     \<and> agent_setup failing_router_environment plain_input (effective_model plain_input) =
         ([], Inl (JsError False (Some 503) (Some (JString (js ''Service unavailable'')))))
     \<and> chosen_message failing_router_environment
           (JsError False (Some 503) (Some (JString (js ''Service unavailable'')))) =
         Inr (js ''Something went wrong. Please try again.'')"
    by (simp add: plain_input_fields plain_input_model early_setup service_unavailable_message)
  note concl1 = inst1 [THEN conjunct2, THEN conjunct1, THEN mp, OF hyps1]
  have early: "runAutonomousAgent failing_router_environment plain_input =
       ([],
        Inr [\<lparr>project_id = js ''project-1'', chat_id = js ''chat-1'', sender = js ''ai'',
              msg_text = js ''An error occurred: '' @ js ''Something went wrong. Please try again.'',
              image_base64 = None, groundingMetadata = None\<rparr>])"
    by (rule concl1)
  show ?thesis
    using result early by (simp add: interrupted_run interrupted_state_def interrupted_trace_def)
qed

lemma aggregator_input_fields:
  "in_files aggregator_input = []" "in_onStreamChunk aggregator_input"
  "in_project aggregator_input = Some (js ''project-1'')" "in_chat aggregator_input = Some (js ''chat-1'')"
  "in_prompt aggregator_input = js ''hello''" "in_openrouter_api_key aggregator_input"
  by (simp_all add: aggregator_input_def)

text \<open>In a SIMPLE hop on an aggregator model the generator is the one of \<open>streamOpenRouter\<close>,
  and \<open>usedFallback\<close> stays false, whatever the response.\<close>

lemma select_generator_aggregator:
  "select_generator env inp loopCount model' False p =
     ([], Inr (map Delta (fst (streamOpenRouter env (fetch env loopCount model' p) model')),
               snd (streamOpenRouter env (fetch env loopCount model' p) model')), False)"
  by (simp add: select_generator_def call_streamOpenRouter_def)

lemma aggregator_model: "effective_model aggregator_input = js ''meta-llama/llama-3-70b''"
  by (simp add: effective_model_def aggregator_input_def trim_def is_white_space_def js_def)

lemma aggregator_not_native: "\<not> isGoogleModel (js ''meta-llama/llama-3-70b'')"
  by (simp add: isGoogleModel_def js_def)

lemma no_providers_found:
  "str_includes (js ''No allowed providers are available for the selected model.'') (js ''No allowed providers'')"
  by (simp add: js_def)

lemma str_includes_append_right: "str_includes b sub \<Longrightarrow> str_includes (a @ b) sub"
  by (induction a) auto

lemma unavailable_recognised:
  "str_includes (js ''The model '' @ [34] @ model' @ [34]
      @ js '' is currently unavailable via OpenRouter (No providers). Please select a different model.'')
     (js ''currently unavailable'')"
proof -
  have "str_includes (js '' is currently unavailable via OpenRouter (No providers). Please select a different model.'')
          (js ''currently unavailable'')"
    by (simp add: js_def)
  then show ?thesis
    by (intro str_includes_append_right)
qed

lemma no_providers_stream:
  "streamOpenRouter env (Inr no_providers_response) model' = ([], Some (unavailable_Error model'))"
proof -
  have members: "get_prop (JObject [(js ''error'',
                    JObject [(js ''message'', JString (js ''No allowed providers are available for the selected model.'')),
                             (js ''code'', JNumber False 404 0)])]) (js ''error'')
      = Some (JObject [(js ''message'', JString (js ''No allowed providers are available for the selected model.'')),
                             (js ''code'', JNumber False 404 0)])"
    by (simp add: get_prop_def lookup_member_def)
  have message: "get_prop (JObject [(js ''message'', JString (js ''No allowed providers are available for the selected model.'')),
                             (js ''code'', JNumber False 404 0)]) (js ''message'')
      = Some (JString (js ''No allowed providers are available for the selected model.''))"
    by (simp add: get_prop_def lookup_member_def js_def)
  have data: "read_error_data no_providers_response model' errorMsg = Inl (unavailable_Error model')"
    for errorMsg
    by (simp add: read_error_data_def no_providers_response_def members message nullish_def
          message_includes_no_providers_def no_providers_found Let_def)
  have "openrouter_failure env no_providers_response model' = unavailable_Error model'"
    using unavailable_recognised [of model']
    by (simp add: openrouter_failure_def data Let_def unavailable_Error_def new_Error_def
          call_includes_def)
  then show ?thesis
    by (simp add: streamOpenRouter_def resp_ok_def no_providers_response_def)
qed

lemma aggregator_setup:
  "agent_setup unavailable_environment aggregator_input (js ''meta-llama/llama-3-70b'') =
     ([], Inr (js ''meta-llama/llama-3-70b'', False, js ''hello'', aggregator_start))"
  by (simp add: agent_setup_def aggregator_not_native unavailable_environment_def quiet_environment_def
        aggregator_input_fields aggregator_start_def Let_def)

lemma aggregator_hop:
  "hop unavailable_environment aggregator_input (js ''meta-llama/llama-3-70b'') False (js ''hello'') (Suc 0)
     aggregator_start = (aggregator_start, Throw (unavailable_Error (js ''meta-llama/llama-3-70b'')))"
proof -
  have fetched: "fetch unavailable_environment (Suc 0) (js ''meta-llama/llama-3-70b'') (js ''hello'')
                   = Inr no_providers_response"
    by (simp add: unavailable_environment_def)
  have start: "currentAction aggregator_start = SIMPLE" "currentPrompt aggregator_start = js ''hello''"
    "aggregator_start\<lparr>trace := trace aggregator_start @ []\<rparr> = aggregator_start"
    by (simp_all add: aggregator_start_def)
  show ?thesis
    by (simp add: hop_def simple_hop_def select_generator_aggregator fetched no_providers_stream
          start consume_def aggregator_input_fields Let_def)
qed

lemma aggregator_run:
  "snd (run_loop unavailable_environment aggregator_input (js ''meta-llama/llama-3-70b'') False (js ''hello'') 0
          aggregator_start) = (aggregator_start, Inl (unavailable_Error (js ''meta-llama/llama-3-70b'')))"
  by (subst run_loop_Throw [where loopCount = 0 and hopNumber = "Suc 0", OF _ _ aggregator_hop])
     (simp_all add: MAX_LOOPS_def)

lemma unavailable_is_openrouter:
  "str_includes (js ''The model '' @ [34] @ model' @ [34]
      @ js '' is currently unavailable via OpenRouter (No providers). Please select a different model.'')
     (js ''OpenRouter'')"
proof -
  have "str_includes (js '' is currently unavailable via OpenRouter (No providers). Please select a different model.'')
          (js ''OpenRouter'')"
    by (simp add: js_def)
  then show ?thesis
    by (intro str_includes_append_right)
qed

lemma unavailable_message:
  \<open>chosen_message env (unavailable_Error (js ''meta-llama/llama-3-70b'')) =
     Inr (js ''The model "meta-llama/llama-3-70b" is currently unavailable via OpenRouter (No providers). Please select a different model.'')\<close>
  using unavailable_is_openrouter [of "js ''meta-llama/llama-3-70b''"]
  by (simp add: unavailable_Error_def new_Error_def chosen_message_string) (simp add: js_def)

text \<open>
  Claim C3 fails on the code. For an aggregator model with a key, when the response is
  the 404 \<open>No allowed providers\<close>, the error is thrown by the iteration of the
  generator, outside the \<open>try\<close> that holds the fallback: nothing is streamed, no
  fallback to \<open>gemini-2.5-flash\<close> is made, and the turn ends on the fatal path with the
  aggregator's message.
\<close>

theorem unavailable_model_is_fatal:
  \<open>runAutonomousAgent unavailable_environment aggregator_input =
     ([], Inr [\<lparr>project_id = js ''project-1'', chat_id = js ''chat-1'', sender = js ''ai'',
                 msg_text = js ''An error occurred: '' @
                   js ''The model "meta-llama/llama-3-70b" is currently unavailable via OpenRouter (No providers). Please select a different model.'',
                 image_base64 = None, groundingMetadata = None\<rparr>])\<close>
proof -
  have tried: "agent_try unavailable_environment aggregator_input (js ''meta-llama/llama-3-70b'') =
                 ([], Inl (unavailable_Error (js ''meta-llama/llama-3-70b'')))"
    by (simp add: agent_try_def aggregator_setup aggregator_run Let_def) (simp add: aggregator_start_def)
  show ?thesis
    by (simp add: runAutonomousAgent_def aggregator_model tried
          unavailable_message make_message_def aggregator_input_fields Let_def)
qed

end
